theory Spec2Isabelle
  imports Main
begin

section \<open>The collision-detection facade of dart/collision/CollisionDetector.cpp\<close>

text \<open>
  The file under verification implements the non-virtual part of
  \<^verbatim>\<open>dart::collision::CollisionDetector\<close>: the two convenience overloads of
  \<^verbatim>\<open>collide\<close>, the lazily created scratch option and scratch result, and the two
  managers of collision objects (unsharable and sharable) with their deleters.

  Pointers are modelled by identities: a shape frame is a handle (a number), a collision
  object is named by the serial number of its allocation, so an address that the
  allocator hands out again after a \<^verbatim>\<open>delete\<close> is still a new identity. Every function
  takes the detector (with the objects it owns) and returns it updated. A failed
  \<^verbatim>\<open>assert\<close> is the error value of the result type (a build with assertions enabled).
\<close>

subsection \<open>Data\<close>

type_synonym ShapeFrame = nat
type_synonym ObjectId = nat
type_synonym CollisionGroup = "ObjectId list"
type_synonym Contact = "ObjectId \<times> ObjectId"
type_synonym CollisionResult = "Contact list"

text \<open>
  Modelled from the spec: the struct \<^verbatim>\<open>CollisionOption\<close> is declared in a header that is
  not part of the sources. Its four fields are the ones that the source reads and writes
  (\<^verbatim>\<open>enableContact\<close>, \<^verbatim>\<open>binaryCheck\<close>, \<^verbatim>\<open>maxNumContacts\<close>, \<^verbatim>\<open>collisionFilter\<close>); the
  filter is a shared pointer, \<open>None\<close> being \<^verbatim>\<open>nullptr\<close>, and its pointee type \<open>'f\<close> is left
  open. \<^verbatim>\<open>maxNumContacts\<close> is a \<^verbatim>\<open>std::size_t\<close> on which the source does no arithmetic.
\<close>

record 'f CollisionOption =
  enableContact :: bool
  binaryCheck :: bool
  maxNumContacts :: nat
  collisionFilter :: "'f option"

text \<open>
  Modelled from the spec: the constructor of \<^verbatim>\<open>CollisionOption\<close> (in the missing header)
  takes the four fields in the order the spec lists them, which is also the order that
  the assertions after \<^verbatim>\<open>CollisionOption(false, true, 1u, nullptr)\<close> rely on.
\<close>

definition CollisionOption_ctor ::
  "bool \<Rightarrow> bool \<Rightarrow> nat \<Rightarrow> 'f option \<Rightarrow> 'f CollisionOption" where
  "CollisionOption_ctor e b n f =
     \<lparr>enableContact = e, binaryCheck = b, maxNumContacts = n, collisionFilter = f\<rparr>"

datatype Error = AssertionFailed

text \<open>A collision object knows the shape frame it was created for.\<close>

record CollisionObject =
  mShapeFrame :: ShapeFrame

text \<open>
  The deleter that a \<^verbatim>\<open>std::shared_ptr\<close> was constructed with: the member
  \<^verbatim>\<open>mCollisionObjectDeleter\<close> of one of the two managers.
\<close>

datatype Deleter = UnsharableCollisionObjectDeleter | SharableCollisionObjectDeleter

text \<open>
  The control block of a \<^verbatim>\<open>std::shared_ptr<CollisionObject>\<close>: the object, the number of
  owning references and the deleter. A block leaves the heap when the object is deleted.
\<close>

record ControlBlock =
  object :: CollisionObject
  use_count :: nat
  deleter :: Deleter

text \<open>
  The two managers. Only the sharable one has a member \<^verbatim>\<open>mCollisionObjectMap\<close>, from
  shape frames to weak pointers (the identity of the object's control block).
\<close>

datatype CollisionObjectManager =
    ManagerForUnsharableCollisionObjects
  | ManagerForSharableCollisionObjects "ShapeFrame \<rightharpoonup> ObjectId"

text \<open>The calls that a deleter makes, in the order in which it makes them.\<close>

datatype Event =
    NotifyCollisionObjectDestroying ObjectId
  | EraseMapEntry ShapeFrame
  | DeleteObject ObjectId

text \<open>
  The detector: its three lazily set members, and around them the heap of control
  blocks, the allocation counter and the log of the deleters' calls.
\<close>

record 'f CollisionDetector =
  mDummyCollisionOption :: "'f CollisionOption option"
  mDummyCollisionResult :: "CollisionResult option"
  mCollisionObjectManager :: "CollisionObjectManager option"
  heap :: "ObjectId \<rightharpoonup> ControlBlock"
  nextObject :: ObjectId
  events :: "Event list"

text \<open>
  The core overloads \<^verbatim>\<open>collide(group, option, result)\<close> and
  \<^verbatim>\<open>collide(group1, group2, option, result)\<close> are pure virtual: a backend supplies
  them. They read the option through a const reference and write into the result; they
  are functions of their arguments, so a backend that calls back into the detector
  during a query is outside the model.
\<close>

type_synonym 'f CoreCollide =
  "CollisionGroup \<Rightarrow> 'f CollisionOption \<Rightarrow> CollisionResult \<Rightarrow> bool \<times> CollisionResult"

type_synonym 'f CoreCollide2 =
  "CollisionGroup \<Rightarrow> CollisionGroup \<Rightarrow> 'f CollisionOption \<Rightarrow> CollisionResult
     \<Rightarrow> bool \<times> CollisionResult"

subsection \<open>Scratch option and scratch result\<close>

definition getDummyCollisionOption ::
  "'f CollisionDetector \<Rightarrow> 'f CollisionOption \<times> 'f CollisionDetector" where
  "getDummyCollisionOption s =
     (case mDummyCollisionOption s of
        None \<Rightarrow>
          (let fresh = CollisionOption_ctor False True 1 None
           in (fresh, s\<lparr>mDummyCollisionOption := Some fresh\<rparr>))
      | Some opt \<Rightarrow> (opt, s))"

definition getDummyCollisionResult ::
  "'f CollisionDetector \<Rightarrow> CollisionResult \<times> 'f CollisionDetector" where
  "getDummyCollisionResult s =
     (case mDummyCollisionResult s of
        None \<Rightarrow> ([], s\<lparr>mDummyCollisionResult := Some []\<rparr>)
      | Some r \<Rightarrow> (r, s))"

subsection \<open>The convenience overloads of collide\<close>

text \<open>
  The call of the core overload on the scratch result: the result is passed by
  reference, so what the backend writes stays in \<^verbatim>\<open>mDummyCollisionResult\<close>.
\<close>

definition collideOnDummyResult ::
  "(CollisionResult \<Rightarrow> bool \<times> CollisionResult) \<Rightarrow> 'f CollisionDetector
     \<Rightarrow> bool \<times> 'f CollisionDetector" where
  "collideOnDummyResult query s =
     (let (result, s1) = getDummyCollisionResult s;
          (hit, result') = query result
      in (hit, s1\<lparr>mDummyCollisionResult := Some result'\<rparr>))"

text \<open>
  The one-group overload. With \<^verbatim>\<open>option.binaryCheck\<close> set it passes the caller's option
  on; otherwise it fetches the scratch option, overwrites its filter, checks the three
  assertions and passes the scratch option on.
\<close>

definition collide ::
  "'f CoreCollide \<Rightarrow> 'f CollisionDetector \<Rightarrow> CollisionGroup \<Rightarrow> 'f CollisionOption
     \<Rightarrow> Error + (bool \<times> 'f CollisionDetector)" where
  "collide core s grp option =
     (if binaryCheck option
      then Inr (collideOnDummyResult (core grp option) s)
      else
        (let (dummy, s1) = getDummyCollisionOption s;
             collisionOption = dummy\<lparr>collisionFilter := collisionFilter option\<rparr>;
             s2 = s1\<lparr>mDummyCollisionOption := Some collisionOption\<rparr>
         in if enableContact collisionOption \<noteq> False then Inl AssertionFailed
            else if binaryCheck collisionOption \<noteq> True then Inl AssertionFailed
            else if maxNumContacts collisionOption \<noteq> 1 then Inl AssertionFailed
            else Inr (collideOnDummyResult (core grp collisionOption) s2)))"

text \<open>The two-group overload, with the same body.\<close>

definition collide2 ::
  "'f CoreCollide2 \<Rightarrow> 'f CollisionDetector \<Rightarrow> CollisionGroup \<Rightarrow> CollisionGroup
     \<Rightarrow> 'f CollisionOption \<Rightarrow> Error + (bool \<times> 'f CollisionDetector)" where
  "collide2 core2 s grp1 grp2 option =
     (if binaryCheck option
      then Inr (collideOnDummyResult (core2 grp1 grp2 option) s)
      else
        (let (dummy, s1) = getDummyCollisionOption s;
             collisionOption = dummy\<lparr>collisionFilter := collisionFilter option\<rparr>;
             s2 = s1\<lparr>mDummyCollisionOption := Some collisionOption\<rparr>
         in if enableContact collisionOption \<noteq> False then Inl AssertionFailed
            else if binaryCheck collisionOption \<noteq> True then Inl AssertionFailed
            else if maxNumContacts collisionOption \<noteq> 1 then Inl AssertionFailed
            else Inr (collideOnDummyResult (core2 grp1 grp2 collisionOption) s2)))"

subsection \<open>Owning references\<close>

text \<open>
  Modelled from the spec: \<^verbatim>\<open>createCollisionObject\<close> is the backend's pure virtual
  constructor of a collision object (not in the sources). It returns a unique pointer to
  a new object for the given shape frame; the new identity is the allocation counter.
\<close>

definition createCollisionObject ::
  "'f CollisionDetector \<Rightarrow> ShapeFrame
     \<Rightarrow> (ObjectId \<times> CollisionObject) \<times> 'f CollisionDetector" where
  "createCollisionObject s shapeFrame =
     ((nextObject s, \<lparr>mShapeFrame = shapeFrame\<rparr>), s\<lparr>nextObject := Suc (nextObject s)\<rparr>)"

text \<open>\<^verbatim>\<open>std::shared_ptr<CollisionObject>(uniqueObject.release(), deleter)\<close>\<close>

definition shared_ptr_ctor ::
  "'f CollisionDetector \<Rightarrow> ObjectId \<times> CollisionObject \<Rightarrow> Deleter \<Rightarrow> 'f CollisionDetector" where
  "shared_ptr_ctor s uniqueObject d =
     s\<lparr>heap := (heap s)(fst uniqueObject \<mapsto>
          \<lparr>object = snd uniqueObject, use_count = 1, deleter = d\<rparr>)\<rparr>"

text \<open>
  \<^verbatim>\<open>weak_ptr::lock\<close>: a new owning reference when the object is alive, the empty pointer
  when it has expired.
\<close>

definition lock :: "'f CollisionDetector \<Rightarrow> ObjectId \<Rightarrow> (ObjectId \<times> 'f CollisionDetector) option" where
  "lock s w =
     (case heap s w of
        None \<Rightarrow> None
      | Some c \<Rightarrow>
          if use_count c = 0 then None
          else Some (w, s\<lparr>heap := (heap s)(w \<mapsto> c\<lparr>use_count := Suc (use_count c)\<rparr>)\<rparr>))"

text \<open>Copying an owning reference that a caller holds.\<close>

definition shared_ptr_copy :: "'f CollisionDetector \<Rightarrow> ObjectId \<Rightarrow> 'f CollisionDetector" where
  "shared_ptr_copy s a =
     (case heap s a of
        None \<Rightarrow> s
      | Some c \<Rightarrow> s\<lparr>heap := (heap s)(a \<mapsto> c\<lparr>use_count := Suc (use_count c)\<rparr>)\<rparr>)"

subsection \<open>Deleters\<close>

text \<open>
  \<^verbatim>\<open>CollisionDetector::notifyCollisionObjectDestroying\<close>, as the base class defines it:
  it does nothing. The call is logged.
\<close>

definition notifyCollisionObjectDestroying ::
  "'f CollisionDetector \<Rightarrow> ObjectId \<Rightarrow> 'f CollisionDetector" where
  "notifyCollisionObjectDestroying s a =
     s\<lparr>events := events s @ [NotifyCollisionObjectDestroying a]\<rparr>"

definition delete_object :: "'f CollisionDetector \<Rightarrow> ObjectId \<Rightarrow> 'f CollisionDetector" where
  "delete_object s a =
     s\<lparr>heap := (heap s)(a := None), events := events s @ [DeleteObject a]\<rparr>"

text \<open>
  \<^verbatim>\<open>mCollisionObjectManager->mCollisionObjectMap.erase(key)\<close>: erasure by key. The
  deleter's manager is the sharable manager that made the pointer, which is the
  detector's manager; the other cases of the model leave the detector as it is.
\<close>

definition eraseMapEntry :: "'f CollisionDetector \<Rightarrow> ShapeFrame \<Rightarrow> 'f CollisionDetector" where
  "eraseMapEntry s key =
     s\<lparr>mCollisionObjectManager :=
          (case mCollisionObjectManager s of
             Some (ManagerForSharableCollisionObjects m) \<Rightarrow>
               Some (ManagerForSharableCollisionObjects (m(key := None)))
           | other \<Rightarrow> other),
        events := events s @ [EraseMapEntry key]\<rparr>"

definition unsharableDeleter ::
  "'f CollisionDetector \<Rightarrow> ObjectId \<times> CollisionObject \<Rightarrow> 'f CollisionDetector" where
  "unsharableDeleter s obj =
     (let s1 = notifyCollisionObjectDestroying s (fst obj)
      in delete_object s1 (fst obj))"

definition sharableDeleter ::
  "'f CollisionDetector \<Rightarrow> ObjectId \<times> CollisionObject \<Rightarrow> 'f CollisionDetector" where
  "sharableDeleter s obj =
     (let s1 = notifyCollisionObjectDestroying s (fst obj);
          s2 = eraseMapEntry s1 (mShapeFrame (snd obj))
      in delete_object s2 (fst obj))"

text \<open>
  Releasing an owning reference: the count goes down, and the release of the last
  reference runs the deleter that the pointer was constructed with.
\<close>

definition shared_ptr_release :: "'f CollisionDetector \<Rightarrow> ObjectId \<Rightarrow> 'f CollisionDetector" where
  "shared_ptr_release s a =
     (case heap s a of
        None \<Rightarrow> s
      | Some c \<Rightarrow>
          if 1 < use_count c
          then s\<lparr>heap := (heap s)(a \<mapsto> c\<lparr>use_count := use_count c - 1\<rparr>)\<rparr>
          else (case deleter c of
                  UnsharableCollisionObjectDeleter \<Rightarrow> unsharableDeleter s (a, object c)
                | SharableCollisionObjectDeleter \<Rightarrow> sharableDeleter s (a, object c)))"

subsection \<open>The two managers\<close>

definition unsharable_claimCollisionObject ::
  "'f CollisionDetector \<Rightarrow> ShapeFrame \<Rightarrow> Error + (ObjectId \<times> 'f CollisionDetector)" where
  "unsharable_claimCollisionObject s shapeFrame =
     (let (uniqueObject, s1) = createCollisionObject s shapeFrame;
          s2 = shared_ptr_ctor s1 uniqueObject UnsharableCollisionObjectDeleter
      in Inr (fst uniqueObject, s2))"

text \<open>
  The sharable manager; \<open>m\<close> is its member \<^verbatim>\<open>mCollisionObjectMap\<close>. The assertion
  \<^verbatim>\<open>assert(collObj.lock())\<close> takes and drops a reference; the returned \<^verbatim>\<open>collObj.lock()\<close>
  keeps one.
\<close>

definition sharable_claimCollisionObject ::
  "(ShapeFrame \<rightharpoonup> ObjectId) \<Rightarrow> 'f CollisionDetector \<Rightarrow> ShapeFrame
     \<Rightarrow> Error + (ObjectId \<times> 'f CollisionDetector)" where
  "sharable_claimCollisionObject m s shapeFrame =
     (case m shapeFrame of
        Some collObj \<Rightarrow>
          (case lock s collObj of
             None \<Rightarrow> Inl AssertionFailed
           | Some locked \<Rightarrow> Inr locked)
      | None \<Rightarrow>
          (let (uniqueObject, s1) = createCollisionObject s shapeFrame;
               s2 = shared_ptr_ctor s1 uniqueObject SharableCollisionObjectDeleter;
               s3 = s2\<lparr>mCollisionObjectManager :=
                      Some (ManagerForSharableCollisionObjects
                              (m(shapeFrame \<mapsto> fst uniqueObject)))\<rparr>
           in Inr (fst uniqueObject, s3)))"

text \<open>The virtual call \<^verbatim>\<open>mCollisionObjectManager->claimCollisionObject(shapeFrame)\<close>.\<close>

fun manager_claimCollisionObject ::
  "CollisionObjectManager \<Rightarrow> 'f CollisionDetector \<Rightarrow> ShapeFrame
     \<Rightarrow> Error + (ObjectId \<times> 'f CollisionDetector)" where
  "manager_claimCollisionObject ManagerForUnsharableCollisionObjects s shapeFrame =
     unsharable_claimCollisionObject s shapeFrame"
| "manager_claimCollisionObject (ManagerForSharableCollisionObjects m) s shapeFrame =
     sharable_claimCollisionObject m s shapeFrame"

definition claimCollisionObject ::
  "'f CollisionDetector \<Rightarrow> ShapeFrame \<Rightarrow> Error + (ObjectId \<times> 'f CollisionDetector)" where
  "claimCollisionObject s shapeFrame =
     (case mCollisionObjectManager s of
        None \<Rightarrow>
          manager_claimCollisionObject ManagerForUnsharableCollisionObjects
            (s\<lparr>mCollisionObjectManager := Some ManagerForUnsharableCollisionObjects\<rparr>)
            shapeFrame
      | Some manager \<Rightarrow> manager_claimCollisionObject manager s shapeFrame)"

subsection \<open>Detectors in use\<close>

text \<open>
  A detector as the base class constructs it, and a detector of a backend whose
  constructor installs the sharable manager.
\<close>

definition newCollisionDetector :: "'f CollisionDetector" where
  "newCollisionDetector =
     \<lparr>mDummyCollisionOption = None, mDummyCollisionResult = None,
      mCollisionObjectManager = None, heap = Map.empty, nextObject = 0, events = []\<rparr>"

definition newSharingCollisionDetector :: "'f CollisionDetector" where
  "newSharingCollisionDetector =
     newCollisionDetector
       \<lparr>mCollisionObjectManager := Some (ManagerForSharableCollisionObjects Map.empty)\<rparr>"

text \<open>
  One call from outside: a convenience query with any backend, a claim of a collision
  object, a copy or a release of an owning reference to a live object.
\<close>

inductive step :: "'f CollisionDetector \<Rightarrow> 'f CollisionDetector \<Rightarrow> bool" where
  step_collide: "collide core s grp option = Inr (hit, s') \<Longrightarrow> step s s'"
| step_collide2: "collide2 core2 s grp1 grp2 option = Inr (hit, s') \<Longrightarrow> step s s'"
| step_claim: "claimCollisionObject s shapeFrame = Inr (a, s') \<Longrightarrow> step s s'"
| step_copy: "heap s a \<noteq> None \<Longrightarrow> step s (shared_ptr_copy s a)"
| step_release: "heap s a \<noteq> None \<Longrightarrow> step s (shared_ptr_release s a)"

definition reachable :: "'f CollisionDetector \<Rightarrow> bool" where
  "reachable s \<longleftrightarrow>
     step\<^sup>*\<^sup>* newCollisionDetector s \<or> step\<^sup>*\<^sup>* newSharingCollisionDetector s"

subsection \<open>Properties of detectors\<close>

text \<open>
  The option that the convenience overloads hand to the backend when the caller did not
  ask for a binary check: the scratch option's three fixed fields and the caller's filter.
\<close>

definition forcedBinaryOption :: "'f CollisionOption \<Rightarrow> 'f CollisionOption" where
  "forcedBinaryOption option = CollisionOption_ctor False True 1 (collisionFilter option)"

text \<open>The scratch option, once created, has the field values of a binary check.\<close>

definition dummyOptionOk :: "'f CollisionDetector \<Rightarrow> bool" where
  "dummyOptionOk s \<longleftrightarrow>
     (case mDummyCollisionOption s of
        None \<Rightarrow> True
      | Some opt \<Rightarrow> enableContact opt = False \<and> binaryCheck opt = True \<and> maxNumContacts opt = 1)"

text \<open>Live objects were allocated earlier and have an owner.\<close>

definition heapOk :: "'f CollisionDetector \<Rightarrow> bool" where
  "heapOk s \<longleftrightarrow> (\<forall>a c. heap s a = Some c \<longrightarrow> a < nextObject s \<and> 0 < use_count c)"

text \<open>
  What the manager knows about the live objects. Without a manager there are none; the
  unsharable manager's objects carry its deleter; the sharable manager's map has an entry
  for the shape frame of every live object, and every entry names a live object of that
  shape frame.
\<close>

definition managerOk :: "'f CollisionDetector \<Rightarrow> bool" where
  "managerOk s \<longleftrightarrow>
     (case mCollisionObjectManager s of
        None \<Rightarrow> heap s = Map.empty
      | Some ManagerForUnsharableCollisionObjects \<Rightarrow>
          (\<forall>a c. heap s a = Some c \<longrightarrow> deleter c = UnsharableCollisionObjectDeleter)
      | Some (ManagerForSharableCollisionObjects m) \<Rightarrow>
          (\<forall>a c. heap s a = Some c \<longrightarrow>
             deleter c = SharableCollisionObjectDeleter \<and> m (mShapeFrame (object c)) = Some a) \<and>
          (\<forall>h a. m h = Some a \<longrightarrow> (\<exists>c. heap s a = Some c \<and> mShapeFrame (object c) = h)))"

definition invariant :: "'f CollisionDetector \<Rightarrow> bool" where
  "invariant s \<longleftrightarrow> dummyOptionOk s \<and> heapOk s \<and> managerOk s"

text \<open>
  What every call preserves: the allocation counter does not go down, an identity
  below the counter never comes (back) to life and keeps its object and deleter, and
  the kind of the manager stays.
\<close>

definition evolves :: "'f CollisionDetector \<Rightarrow> 'f CollisionDetector \<Rightarrow> bool" where
  "evolves s s' \<longleftrightarrow>
     nextObject s \<le> nextObject s' \<and>
     (\<forall>b c'. heap s' b = Some c' \<longrightarrow> b < nextObject s \<longrightarrow>
        (\<exists>c. heap s b = Some c \<and> object c = object c' \<and> deleter c = deleter c')) \<and>
     (\<forall>m. mCollisionObjectManager s = Some (ManagerForSharableCollisionObjects m) \<longrightarrow>
        (\<exists>m'. mCollisionObjectManager s' = Some (ManagerForSharableCollisionObjects m'))) \<and>
     (mCollisionObjectManager s = Some ManagerForUnsharableCollisionObjects \<longrightarrow>
        mCollisionObjectManager s' = Some ManagerForUnsharableCollisionObjects)"

subsection \<open>A backend and detectors for examples\<close>

text \<open>
  Modelled from the spec: a core overload as the spec describes the one that backends
  supply (the backends are not part of the sources). It goes through the distinct pairs
  of the group in insertion order, drops the pairs that the filter rejects, stops at the
  contact limit (one for a binary check, none when \<^verbatim>\<open>maxNumContacts\<close> is 0), appends the
  matches to the result and returns whether there was one. In this backend every two
  objects overlap.
\<close>

fun distinctPairs :: "ObjectId list \<Rightarrow> Contact list" where
  "distinctPairs [] = []"
| "distinctPairs (x # xs) = map (Pair x) xs @ distinctPairs xs"

definition limitContacts :: "(Contact \<Rightarrow> bool) CollisionOption \<Rightarrow> Contact list \<Rightarrow> Contact list" where
  "limitContacts option candidates =
     (let allowed = filter (\<lambda>p. case collisionFilter option of
                                   None \<Rightarrow> True | Some allow \<Rightarrow> allow p) candidates
      in if binaryCheck option then take 1 allowed
         else if maxNumContacts option = 0 then allowed
         else take (maxNumContacts option) allowed)"

definition sampleCollide :: "(Contact \<Rightarrow> bool) CoreCollide" where
  "sampleCollide grp option result =
     (let found = limitContacts option (distinctPairs grp)
      in (found \<noteq> [], result @ found))"

definition sampleCollide2 :: "(Contact \<Rightarrow> bool) CoreCollide2" where
  "sampleCollide2 grp1 grp2 option result =
     (let found = limitContacts option (List.product grp1 grp2)
      in (found \<noteq> [], result @ found))"

text \<open>An option that asks for every contact.\<close>

definition fullOption :: "(Contact \<Rightarrow> bool) CollisionOption" where
  "fullOption = CollisionOption_ctor True False 0 None"

text \<open>An option that asks for every contact between objects other than the first.\<close>

definition keepLater :: "Contact \<Rightarrow> bool" where
  "keepLater p \<longleftrightarrow> 0 < fst p"

definition filteredOption :: "(Contact \<Rightarrow> bool) CollisionOption" where
  "filteredOption = CollisionOption_ctor True False 0 (Some keepLater)"

text \<open>A base-class detector before any call.\<close>

definition freshDetector :: "(Contact \<Rightarrow> bool) CollisionDetector" where
  "freshDetector = newCollisionDetector"

text \<open>A caller's binary-check option with a filter of its own.\<close>

definition binaryFilteredOption :: "(Contact \<Rightarrow> bool) CollisionOption" where
  "binaryFilteredOption = CollisionOption_ctor False True 1 (Some keepLater)"

text \<open>
  The base-class detector after \<^verbatim>\<open>collide(group, option)\<close> on a group of three objects
  with the option that asks for every contact: the scratch option exists and the scratch
  result holds one contact.
\<close>

definition usedDetector :: "(Contact \<Rightarrow> bool) CollisionDetector" where
  "usedDetector =
     \<lparr>mDummyCollisionOption = Some (CollisionOption_ctor False True 1 None),
      mDummyCollisionResult = Some [(0, 1)],
      mCollisionObjectManager = None, heap = Map.empty, nextObject = 0, events = []\<rparr>"

text \<open>The base-class detector after \<^verbatim>\<open>claimCollisionObject(7)\<close>.\<close>

definition exclusiveDetector :: "(Contact \<Rightarrow> bool) CollisionDetector" where
  "exclusiveDetector =
     \<lparr>mDummyCollisionOption = None, mDummyCollisionResult = None,
      mCollisionObjectManager = Some ManagerForUnsharableCollisionObjects,
      heap = [0 \<mapsto> \<lparr>object = \<lparr>mShapeFrame = 7\<rparr>, use_count = 1,
                     deleter = UnsharableCollisionObjectDeleter\<rparr>],
      nextObject = 1, events = []\<rparr>"

text \<open>A sharing detector before any call, and after \<^verbatim>\<open>claimCollisionObject(7)\<close>.\<close>

definition sharingDetector :: "(Contact \<Rightarrow> bool) CollisionDetector" where
  "sharingDetector = newSharingCollisionDetector"

definition sharedDetector :: "(Contact \<Rightarrow> bool) CollisionDetector" where
  "sharedDetector =
     \<lparr>mDummyCollisionOption = None, mDummyCollisionResult = None,
      mCollisionObjectManager = Some (ManagerForSharableCollisionObjects [7 \<mapsto> 0]),
      heap = [0 \<mapsto> \<lparr>object = \<lparr>mShapeFrame = 7\<rparr>, use_count = 1,
                     deleter = SharableCollisionObjectDeleter\<rparr>],
      nextObject = 1, events = []\<rparr>"

text \<open>
  A detector that no run produces: the map of the sharable manager still has an entry
  for shape frame 7, and the object is gone.
\<close>

definition corruptDetector :: "(Contact \<Rightarrow> bool) CollisionDetector" where
  "corruptDetector = sharedDetector\<lparr>heap := Map.empty\<rparr>"

section \<open>Lemmas\<close>

subsection \<open>The scratch option in the convenience overloads\<close>

lemma forcedBinaryOption_fields:
  "enableContact (forcedBinaryOption option) = False"
  "binaryCheck (forcedBinaryOption option) = True"
  "maxNumContacts (forcedBinaryOption option) = 1"
  "collisionFilter (forcedBinaryOption option) = collisionFilter option"
  by (simp_all add: forcedBinaryOption_def CollisionOption_ctor_def)

lemma scratch_option_eq:
  fixes d :: "'f CollisionOption"
  assumes "enableContact d = False" "binaryCheck d = True" "maxNumContacts d = 1"
  shows "d\<lparr>collisionFilter := f\<rparr> = CollisionOption_ctor False True 1 f"
  using assms by (cases d) (simp add: CollisionOption_ctor_def)

lemma getDummyCollisionOption_cases:
  assumes "dummyOptionOk s"
  obtains d where "getDummyCollisionOption s = (d, s\<lparr>mDummyCollisionOption := Some d\<rparr>)"
    "enableContact d = False" "binaryCheck d = True" "maxNumContacts d = 1"
proof (cases "mDummyCollisionOption s")
  case None
  then have "getDummyCollisionOption s =
      (CollisionOption_ctor False True 1 None,
       s\<lparr>mDummyCollisionOption := Some (CollisionOption_ctor False True 1 None)\<rparr>)"
    by (simp add: getDummyCollisionOption_def Let_def)
  then show ?thesis
    by (rule that) (simp_all add: CollisionOption_ctor_def)
next
  case (Some d)
  then have "getDummyCollisionOption s = (d, s\<lparr>mDummyCollisionOption := Some d\<rparr>)"
    by (simp add: getDummyCollisionOption_def)
  moreover from Some assms
  have "enableContact d = False" "binaryCheck d = True" "maxNumContacts d = 1"
    by (simp_all add: dummyOptionOk_def)
  ultimately show ?thesis by (rule that)
qed

lemma collideOnDummyResult_frame:
  "mDummyCollisionOption (snd (collideOnDummyResult q s)) = mDummyCollisionOption s"
  "mCollisionObjectManager (snd (collideOnDummyResult q s)) = mCollisionObjectManager s"
  "heap (snd (collideOnDummyResult q s)) = heap s"
  "nextObject (snd (collideOnDummyResult q s)) = nextObject s"
  "events (snd (collideOnDummyResult q s)) = events s"
  by (auto simp: collideOnDummyResult_def getDummyCollisionResult_def split: option.splits prod.splits)

lemma collide_forced:
  assumes "dummyOptionOk s" "\<not> binaryCheck option"
  shows "collide core s grp option =
     Inr (collideOnDummyResult (core grp (forcedBinaryOption option))
            (s\<lparr>mDummyCollisionOption := Some (forcedBinaryOption option)\<rparr>))"
proof -
  from assms(1) obtain d where d:
    "getDummyCollisionOption s = (d, s\<lparr>mDummyCollisionOption := Some d\<rparr>)"
    "enableContact d = False" "binaryCheck d = True" "maxNumContacts d = 1"
    by (rule getDummyCollisionOption_cases)
  have eq: "d\<lparr>collisionFilter := collisionFilter option\<rparr> = forcedBinaryOption option"
    unfolding forcedBinaryOption_def using d(2-4) by (rule scratch_option_eq)
  show ?thesis
    using assms(2) d by (simp add: collide_def Let_def eq forcedBinaryOption_fields)
qed

lemma collide2_forced:
  assumes "dummyOptionOk s" "\<not> binaryCheck option"
  shows "collide2 core2 s grp1 grp2 option =
     Inr (collideOnDummyResult (core2 grp1 grp2 (forcedBinaryOption option))
            (s\<lparr>mDummyCollisionOption := Some (forcedBinaryOption option)\<rparr>))"
proof -
  from assms(1) obtain d where d:
    "getDummyCollisionOption s = (d, s\<lparr>mDummyCollisionOption := Some d\<rparr>)"
    "enableContact d = False" "binaryCheck d = True" "maxNumContacts d = 1"
    by (rule getDummyCollisionOption_cases)
  have eq: "d\<lparr>collisionFilter := collisionFilter option\<rparr> = forcedBinaryOption option"
    unfolding forcedBinaryOption_def using d(2-4) by (rule scratch_option_eq)
  show ?thesis
    using assms(2) d by (simp add: collide2_def Let_def eq forcedBinaryOption_fields)
qed

lemma collide_dummyOk:
  assumes "dummyOptionOk s" "collide core s grp option = Inr (hit, s')"
  shows "dummyOptionOk s'"
proof (cases "binaryCheck option")
  case True
  with assms(2) have "s' = snd (collideOnDummyResult (core grp option) s)"
    by (auto simp: collide_def)
  with assms(1) show ?thesis
    by (simp add: dummyOptionOk_def collideOnDummyResult_frame)
next
  case False
  from collide_forced[OF assms(1) False, of core grp] assms(2)
  have "s' = snd (collideOnDummyResult (core grp (forcedBinaryOption option))
            (s\<lparr>mDummyCollisionOption := Some (forcedBinaryOption option)\<rparr>))"
    by (metis Inr_inject snd_conv)
  then show ?thesis
    by (simp add: dummyOptionOk_def collideOnDummyResult_frame forcedBinaryOption_def CollisionOption_ctor_def)
qed

subsection \<open>The object operations in closed form\<close>

lemma claim_unsharable:
  assumes "mCollisionObjectManager s = None \<or>
           mCollisionObjectManager s = Some ManagerForUnsharableCollisionObjects"
  shows "claimCollisionObject s h =
     Inr (nextObject s,
          s\<lparr>mCollisionObjectManager := Some ManagerForUnsharableCollisionObjects,
            heap := (heap s)(nextObject s \<mapsto>
               \<lparr>object = \<lparr>mShapeFrame = h\<rparr>, use_count = 1,
                deleter = UnsharableCollisionObjectDeleter\<rparr>),
            nextObject := Suc (nextObject s)\<rparr>)"
  using assms
  by (auto simp: claimCollisionObject_def unsharable_claimCollisionObject_def
      createCollisionObject_def shared_ptr_ctor_def)

lemma claim_sharable_new:
  assumes "mCollisionObjectManager s = Some (ManagerForSharableCollisionObjects m)"
    and "m h = None"
  shows "claimCollisionObject s h =
     Inr (nextObject s,
          s\<lparr>mCollisionObjectManager :=
              Some (ManagerForSharableCollisionObjects (m(h \<mapsto> nextObject s))),
            heap := (heap s)(nextObject s \<mapsto>
               \<lparr>object = \<lparr>mShapeFrame = h\<rparr>, use_count = 1,
                deleter = SharableCollisionObjectDeleter\<rparr>),
            nextObject := Suc (nextObject s)\<rparr>)"
  using assms
  by (simp add: claimCollisionObject_def sharable_claimCollisionObject_def
      createCollisionObject_def shared_ptr_ctor_def)

lemma claim_sharable_live:
  assumes "mCollisionObjectManager s = Some (ManagerForSharableCollisionObjects m)"
    and "m h = Some a" and "heap s a = Some c" and "0 < use_count c"
  shows "claimCollisionObject s h =
     Inr (a, s\<lparr>heap := (heap s)(a \<mapsto> c\<lparr>use_count := Suc (use_count c)\<rparr>)\<rparr>)"
  using assms
  by (simp add: claimCollisionObject_def sharable_claimCollisionObject_def lock_def)

lemma claim_sharable_dead:
  assumes "mCollisionObjectManager s = Some (ManagerForSharableCollisionObjects m)"
    and "m h = Some a" and "lock s a = None"
  shows "claimCollisionObject s h = Inl AssertionFailed"
  using assms
  by (simp add: claimCollisionObject_def sharable_claimCollisionObject_def)

lemma release_shared:
  assumes "heap s a = Some c" and "1 < use_count c"
  shows "shared_ptr_release s a = s\<lparr>heap := (heap s)(a \<mapsto> c\<lparr>use_count := use_count c - 1\<rparr>)\<rparr>"
  using assms by (simp add: shared_ptr_release_def)

lemma release_last_unsharable:
  assumes "heap s a = Some c" and "\<not> 1 < use_count c"
    and "deleter c = UnsharableCollisionObjectDeleter"
  shows "shared_ptr_release s a =
     s\<lparr>heap := (heap s)(a := None),
       events := events s @ [NotifyCollisionObjectDestroying a, DeleteObject a]\<rparr>"
  using assms
  by (simp add: shared_ptr_release_def unsharableDeleter_def
      notifyCollisionObjectDestroying_def delete_object_def)

lemma release_last_sharable:
  assumes "heap s a = Some c" and "\<not> 1 < use_count c"
    and "deleter c = SharableCollisionObjectDeleter"
    and "mCollisionObjectManager s = Some (ManagerForSharableCollisionObjects m)"
  shows "shared_ptr_release s a =
     s\<lparr>mCollisionObjectManager :=
         Some (ManagerForSharableCollisionObjects (m(mShapeFrame (object c) := None))),
       heap := (heap s)(a := None),
       events := events s @ [NotifyCollisionObjectDestroying a,
                            EraseMapEntry (mShapeFrame (object c)), DeleteObject a]\<rparr>"
  using assms
  by (simp add: shared_ptr_release_def sharableDeleter_def eraseMapEntry_def
      notifyCollisionObjectDestroying_def delete_object_def)

subsection \<open>The invariant holds in every reachable state\<close>

lemma invariant_new: "invariant newCollisionDetector" "invariant newSharingCollisionDetector"
  by (simp_all add: invariant_def dummyOptionOk_def heapOk_def managerOk_def
      newCollisionDetector_def newSharingCollisionDetector_def)

lemma invariant_frame:
  assumes "invariant s"
    and "dummyOptionOk s'"
    and "mCollisionObjectManager s' = mCollisionObjectManager s"
    and "heap s' = heap s" and "nextObject s' = nextObject s"
  shows "invariant s'"
  using assms
  by (simp add: invariant_def heapOk_def managerOk_def
      cong: option.case_cong CollisionObjectManager.case_cong)

lemma collideOnDummyResult_result:
  assumes "collideOnDummyResult q t = (hit, s')"
  shows "mDummyCollisionOption s' = mDummyCollisionOption t"
    and "mCollisionObjectManager s' = mCollisionObjectManager t"
    and "heap s' = heap t" and "nextObject s' = nextObject t" and "events s' = events t"
  using collideOnDummyResult_frame[of q t] assms by simp_all

lemma getDummyCollisionOption_frame:
  assumes "getDummyCollisionOption s = (d, s1)"
  shows "mCollisionObjectManager s1 = mCollisionObjectManager s"
    and "heap s1 = heap s" and "nextObject s1 = nextObject s" and "events s1 = events s"
    and "mDummyCollisionResult s1 = mDummyCollisionResult s"
  using assms
  by (auto simp: getDummyCollisionOption_def Let_def split: option.splits)

lemma collide_shape:
  assumes "collide core s grp option = Inr (hit, s')"
  obtains q t where "collideOnDummyResult q t = (hit, s')"
    and "mCollisionObjectManager t = mCollisionObjectManager s"
    and "heap t = heap s" and "nextObject t = nextObject s" and "events t = events s"
proof (cases "binaryCheck option")
  case True
  with assms have "collideOnDummyResult (core grp option) s = (hit, s')"
    by (simp add: collide_def)
  then show ?thesis by (rule that) simp_all
next
  case False
  obtain d s1 where d: "getDummyCollisionOption s = (d, s1)"
    by (cases "getDummyCollisionOption s")
  let ?o = "d\<lparr>collisionFilter := collisionFilter option\<rparr>"
  let ?t = "s1\<lparr>mDummyCollisionOption := Some ?o\<rparr>"
  from assms False d have "collideOnDummyResult (core grp ?o) ?t = (hit, s')"
    by (simp add: collide_def Let_def split: if_splits)
  then show ?thesis
    by (rule that) (simp_all add: getDummyCollisionOption_frame[OF d])
qed

lemma collide2_shape:
  assumes "collide2 core2 s grp1 grp2 option = Inr (hit, s')"
  obtains q t where "collideOnDummyResult q t = (hit, s')"
    and "mCollisionObjectManager t = mCollisionObjectManager s"
    and "heap t = heap s" and "nextObject t = nextObject s" and "events t = events s"
proof (cases "binaryCheck option")
  case True
  with assms have "collideOnDummyResult (core2 grp1 grp2 option) s = (hit, s')"
    by (simp add: collide2_def)
  then show ?thesis by (rule that) simp_all
next
  case False
  obtain d s1 where d: "getDummyCollisionOption s = (d, s1)"
    by (cases "getDummyCollisionOption s")
  let ?o = "d\<lparr>collisionFilter := collisionFilter option\<rparr>"
  let ?t = "s1\<lparr>mDummyCollisionOption := Some ?o\<rparr>"
  from assms False d have "collideOnDummyResult (core2 grp1 grp2 ?o) ?t = (hit, s')"
    by (simp add: collide2_def Let_def split: if_splits)
  then show ?thesis
    by (rule that) (simp_all add: getDummyCollisionOption_frame[OF d])
qed

lemma collide_frame:
  assumes "collide core s grp option = Inr (hit, s')"
  shows "mCollisionObjectManager s' = mCollisionObjectManager s"
    and "heap s' = heap s" and "nextObject s' = nextObject s" and "events s' = events s"
proof -
  from assms obtain q t where "collideOnDummyResult q t = (hit, s')"
    and "mCollisionObjectManager t = mCollisionObjectManager s"
    and "heap t = heap s" and "nextObject t = nextObject s" and "events t = events s"
    by (rule collide_shape)
  then show "mCollisionObjectManager s' = mCollisionObjectManager s"
    and "heap s' = heap s" and "nextObject s' = nextObject s" and "events s' = events s"
    by (simp_all add: collideOnDummyResult_result)
qed

lemma collide2_frame:
  assumes "collide2 core2 s grp1 grp2 option = Inr (hit, s')"
  shows "mCollisionObjectManager s' = mCollisionObjectManager s"
    and "heap s' = heap s" and "nextObject s' = nextObject s" and "events s' = events s"
proof -
  from assms obtain q t where "collideOnDummyResult q t = (hit, s')"
    and "mCollisionObjectManager t = mCollisionObjectManager s"
    and "heap t = heap s" and "nextObject t = nextObject s" and "events t = events s"
    by (rule collide2_shape)
  then show "mCollisionObjectManager s' = mCollisionObjectManager s"
    and "heap s' = heap s" and "nextObject s' = nextObject s" and "events s' = events s"
    by (simp_all add: collideOnDummyResult_result)
qed

lemma collide2_dummyOk:
  assumes "dummyOptionOk s" "collide2 core2 s grp1 grp2 option = Inr (hit, s')"
  shows "dummyOptionOk s'"
proof (cases "binaryCheck option")
  case True
  with assms(2) have "s' = snd (collideOnDummyResult (core2 grp1 grp2 option) s)"
    by (auto simp: collide2_def)
  with assms(1) show ?thesis
    by (simp add: dummyOptionOk_def collideOnDummyResult_frame)
next
  case False
  from collide2_forced[OF assms(1) False, of core2 grp1 grp2] assms(2)
  have "s' = snd (collideOnDummyResult (core2 grp1 grp2 (forcedBinaryOption option))
            (s\<lparr>mDummyCollisionOption := Some (forcedBinaryOption option)\<rparr>))"
    by (metis Inr_inject snd_conv)
  then show ?thesis
    by (simp add: dummyOptionOk_def collideOnDummyResult_frame forcedBinaryOption_fields)
qed

lemma invariant_collide:
  assumes "invariant s" and "collide core s grp option = Inr (hit, s')"
  shows "invariant s'"
  using assms(1)
proof (rule invariant_frame)
  from assms show "dummyOptionOk s'"
    by (auto simp: invariant_def intro: collide_dummyOk)
qed (simp_all add: collide_frame[OF assms(2)])

lemma invariant_collide2:
  assumes "invariant s" and "collide2 core2 s grp1 grp2 option = Inr (hit, s')"
  shows "invariant s'"
  using assms(1)
proof (rule invariant_frame)
  from assms show "dummyOptionOk s'"
    by (auto simp: invariant_def intro: collide2_dummyOk)
qed (simp_all add: collide2_frame[OF assms(2)])

lemma invariant_claim:
  assumes inv: "invariant s" and claim: "claimCollisionObject s h = Inr (a, s')"
  shows "invariant s'"
proof (cases "mCollisionObjectManager s")
  case None
  with inv have "heap s = Map.empty" by (simp add: invariant_def managerOk_def)
  with claim_unsharable[of s h] None claim inv show ?thesis
    by (auto simp: invariant_def dummyOptionOk_def heapOk_def managerOk_def)
next
  case (Some manager)
  show ?thesis
  proof (cases manager)
    case ManagerForUnsharableCollisionObjects
    with claim_unsharable[of s h] Some claim inv show ?thesis
      by (auto simp: invariant_def dummyOptionOk_def heapOk_def managerOk_def less_Suc_eq)
  next
    case (ManagerForSharableCollisionObjects m)
    note mgr = Some[unfolded ManagerForSharableCollisionObjects]
    from inv mgr have live: "\<And>b c. heap s b = Some c \<Longrightarrow>
        b < nextObject s \<and> 0 < use_count c \<and> deleter c = SharableCollisionObjectDeleter \<and>
        m (mShapeFrame (object c)) = Some b"
      and entry: "\<And>k b. m k = Some b \<Longrightarrow> \<exists>c. heap s b = Some c \<and> mShapeFrame (object c) = k"
      and dummy: "dummyOptionOk s"
      by (auto simp: invariant_def heapOk_def managerOk_def)
    show ?thesis
    proof (cases "m h")
      case None
      have fresh: "heap s (nextObject s) = None"
        using live[of "nextObject s"] by (cases "heap s (nextObject s)") auto
      from claim_sharable_new[OF mgr None] claim
      have s': "s' = s\<lparr>mCollisionObjectManager :=
              Some (ManagerForSharableCollisionObjects (m(h \<mapsto> nextObject s))),
            heap := (heap s)(nextObject s \<mapsto>
               \<lparr>object = \<lparr>mShapeFrame = h\<rparr>, use_count = 1,
                deleter = SharableCollisionObjectDeleter\<rparr>),
            nextObject := Suc (nextObject s)\<rparr>"
        by simp
      have "dummyOptionOk s'" using dummy by (simp add: s' dummyOptionOk_def)
      moreover have "heapOk s'"
        using live by (auto simp: s' heapOk_def less_Suc_eq)
      moreover have "managerOk s'"
        unfolding managerOk_def s'
        using live entry None fresh by (auto, (metis option.distinct(1))+)
      ultimately show ?thesis by (simp add: invariant_def)
    next
      case (Some b)
      from entry[OF Some] obtain c where c: "heap s b = Some c" "mShapeFrame (object c) = h"
        by blast
      from live[OF c(1)] have pos: "0 < use_count c" by simp
      from claim_sharable_live[OF mgr Some c(1) pos] claim
      have s': "s' = s\<lparr>heap := (heap s)(b \<mapsto> c\<lparr>use_count := Suc (use_count c)\<rparr>)\<rparr>"
        by simp
      have "dummyOptionOk s'" using dummy by (simp add: s' dummyOptionOk_def)
      moreover have "heapOk s'"
        using live c by (auto simp: s' heapOk_def)
      moreover have "managerOk s'"
        unfolding managerOk_def s'
        using live entry c mgr by auto (metis option.inject)
      ultimately show ?thesis by (simp add: invariant_def)
    qed
  qed
qed

lemma invariant_copy:
  assumes inv: "invariant s"
  shows "invariant (shared_ptr_copy s a)"
proof (cases "heap s a")
  case None
  with inv show ?thesis by (simp add: shared_ptr_copy_def)
next
  case (Some c)
  then have s': "shared_ptr_copy s a =
      s\<lparr>heap := (heap s)(a \<mapsto> c\<lparr>use_count := Suc (use_count c)\<rparr>)\<rparr>"
    by (simp add: shared_ptr_copy_def)
  from inv have "dummyOptionOk (shared_ptr_copy s a)"
    by (simp add: s' invariant_def dummyOptionOk_def)
  moreover from inv Some have "heapOk (shared_ptr_copy s a)"
    by (auto simp: s' invariant_def heapOk_def)
  moreover from inv Some have "managerOk (shared_ptr_copy s a)"
    unfolding s' invariant_def managerOk_def
    by (auto split: option.splits CollisionObjectManager.splits) (metis option.inject)+
  ultimately show ?thesis by (simp add: invariant_def)
qed

lemma invariant_release:
  assumes inv: "invariant s"
  shows "invariant (shared_ptr_release s a)"
proof (cases "heap s a")
  case None
  with inv show ?thesis by (simp add: shared_ptr_release_def)
next
  case (Some c)
  let ?s' = "shared_ptr_release s a"
  from inv have dummy: "dummyOptionOk s" and hp: "heapOk s" and mg: "managerOk s"
    by (simp_all add: invariant_def)
  show ?thesis
  proof (cases "1 < use_count c")
    case True
    note s' = release_shared[OF Some True]
    from dummy have "dummyOptionOk ?s'"
      by (simp add: s' dummyOptionOk_def)
    moreover from hp Some True have "heapOk ?s'"
      by (auto simp: s' heapOk_def)
    moreover from mg Some have "managerOk ?s'"
      unfolding s' managerOk_def
      by (auto split: option.splits CollisionObjectManager.splits) (metis option.inject)+
    ultimately show ?thesis by (simp add: invariant_def)
  next
    case False
    show ?thesis
    proof (cases "mCollisionObjectManager s")
      case None
      with mg Some show ?thesis by (simp add: managerOk_def)
    next
      case (Some manager)
      show ?thesis
      proof (cases manager)
        case ManagerForUnsharableCollisionObjects
        with Some mg \<open>heap s a = Some c\<close>
        have del: "deleter c = UnsharableCollisionObjectDeleter"
          by (simp add: managerOk_def)
        note s' = release_last_unsharable[OF \<open>heap s a = Some c\<close> False del]
        from dummy have "dummyOptionOk ?s'"
          by (simp add: s' dummyOptionOk_def)
        moreover from hp have "heapOk ?s'"
          by (auto simp: s' heapOk_def)
        moreover from mg Some ManagerForUnsharableCollisionObjects have "managerOk ?s'"
          by (auto simp: s' managerOk_def)
        ultimately show ?thesis by (simp add: invariant_def)
      next
        case (ManagerForSharableCollisionObjects m)
        note mgr = Some[unfolded ManagerForSharableCollisionObjects]
        from mg mgr have live: "\<And>b d. heap s b = Some d \<Longrightarrow>
            deleter d = SharableCollisionObjectDeleter \<and> m (mShapeFrame (object d)) = Some b"
          and entry: "\<And>k b. m k = Some b \<Longrightarrow>
            \<exists>d. heap s b = Some d \<and> mShapeFrame (object d) = k"
          by (auto simp: managerOk_def)
        from live[OF \<open>heap s a = Some c\<close>]
        have del: "deleter c = SharableCollisionObjectDeleter"
          and own: "m (mShapeFrame (object c)) = Some a"
          by simp_all
        note s' = release_last_sharable[OF \<open>heap s a = Some c\<close> False del mgr]
        from dummy have "dummyOptionOk ?s'"
          by (simp add: s' dummyOptionOk_def)
        moreover from hp have "heapOk ?s'"
          by (auto simp: s' heapOk_def)
        moreover have "managerOk ?s'"
          unfolding s' managerOk_def
          using live entry own \<open>heap s a = Some c\<close>
          by (auto, (metis option.inject)+)
        ultimately show ?thesis by (simp add: invariant_def)
      qed
    qed
  qed
qed

lemma invariant_step:
  assumes "step s s'" and "invariant s"
  shows "invariant s'"
  using assms
  by (induction rule: step.induct)
    (auto intro: invariant_collide invariant_collide2 invariant_claim invariant_copy invariant_release)

lemma invariant_steps:
  assumes "step\<^sup>*\<^sup>* s s'" and "invariant s"
  shows "invariant s'"
  using assms by (induction rule: rtranclp_induct) (auto intro: invariant_step)

lemma reachable_invariant:
  assumes "reachable s"
  shows "invariant s"
  using assms unfolding reachable_def
  by (auto intro: invariant_steps invariant_new)

lemma reachable_step:
  assumes "reachable s" and "step s s'"
  shows "reachable s'"
  using assms unfolding reachable_def by (auto intro: rtranclp.rtrancl_into_rtrancl)

subsection \<open>Identities are not used twice\<close>

lemma evolves_refl: "evolves s s"
  by (simp add: evolves_def)

lemma evolves_trans:
  assumes "evolves s t" and "evolves t u"
  shows "evolves s u"
  unfolding evolves_def
proof (intro conjI allI impI)
  show "nextObject s \<le> nextObject u"
    using assms by (auto simp: evolves_def)
next
  fix b c'
  assume "heap u b = Some c'" and b: "b < nextObject s"
  moreover from b assms(1) have "b < nextObject t" by (auto simp: evolves_def)
  ultimately obtain c where c: "heap t b = Some c" "object c = object c'" "deleter c = deleter c'"
    using assms(2) unfolding evolves_def by blast
  from c(1) b assms(1) obtain d where "heap s b = Some d" "object d = object c" "deleter d = deleter c"
    unfolding evolves_def by blast
  with c show "\<exists>c. heap s b = Some c \<and> object c = object c' \<and> deleter c = deleter c'"
    by simp
next
  fix m
  assume "mCollisionObjectManager s = Some (ManagerForSharableCollisionObjects m)"
  with assms show "\<exists>m'. mCollisionObjectManager u = Some (ManagerForSharableCollisionObjects m')"
    unfolding evolves_def by blast
next
  assume "mCollisionObjectManager s = Some ManagerForUnsharableCollisionObjects"
  with assms show "mCollisionObjectManager u = Some ManagerForUnsharableCollisionObjects"
    unfolding evolves_def by blast
qed

lemma evolves_frame:
  assumes "mCollisionObjectManager s' = mCollisionObjectManager s"
    and "heap s' = heap s" and "nextObject s' = nextObject s"
  shows "evolves s s'"
  using assms by (simp add: evolves_def)

lemma evolves_claim:
  assumes "claimCollisionObject s h = Inr (a, s')"
  shows "evolves s s'"
proof (cases "mCollisionObjectManager s = None \<or>
    mCollisionObjectManager s = Some ManagerForUnsharableCollisionObjects")
  case True
  from claim_unsharable[OF True, of h] assms True show ?thesis
    by (auto simp: evolves_def)
next
  case False
  then obtain m where mgr: "mCollisionObjectManager s = Some (ManagerForSharableCollisionObjects m)"
    by (cases "mCollisionObjectManager s") (auto intro: CollisionObjectManager.exhaust)
  show ?thesis
  proof (cases "m h")
    case None
    from claim_sharable_new[OF mgr None] assms mgr show ?thesis
      by (auto simp: evolves_def)
  next
    case (Some w)
    with assms mgr obtain c where "heap s w = Some c"
      and "s' = s\<lparr>heap := (heap s)(w \<mapsto> c\<lparr>use_count := Suc (use_count c)\<rparr>)\<rparr>"
      by (auto simp: claimCollisionObject_def sharable_claimCollisionObject_def lock_def
          split: option.splits if_splits)
    with mgr show ?thesis
      by (auto simp: evolves_def)
  qed
qed

lemma evolves_copy: "evolves s (shared_ptr_copy s a)"
  by (auto simp: evolves_def shared_ptr_copy_def split: option.splits)

lemma evolves_release: "evolves s (shared_ptr_release s a)"
  by (auto simp: evolves_def shared_ptr_release_def unsharableDeleter_def sharableDeleter_def
      eraseMapEntry_def notifyCollisionObjectDestroying_def delete_object_def
      split: option.splits if_splits Deleter.splits CollisionObjectManager.splits)

lemma evolves_step:
  assumes "step s s'"
  shows "evolves s s'"
  using assms
proof (induction rule: step.induct)
  case (step_collide core s grp option hit s')
  then show ?case by (intro evolves_frame collide_frame)
next
  case (step_collide2 core2 s grp1 grp2 option hit s')
  then show ?case by (intro evolves_frame collide2_frame)
next
  case (step_claim s shapeFrame a s')
  then show ?case by (rule evolves_claim)
next
  case (step_copy s a)
  show ?case by (rule evolves_copy)
next
  case (step_release s a)
  show ?case by (rule evolves_release)
qed

lemma evolves_steps:
  assumes "step\<^sup>*\<^sup>* s s'"
  shows "evolves s s'"
  using assms
  by (induction rule: rtranclp_induct) (auto intro: evolves_refl evolves_trans evolves_step)

lemma reachable_steps:
  assumes "reachable s" and "step\<^sup>*\<^sup>* s s'"
  shows "reachable s'"
  using assms unfolding reachable_def by (auto intro: rtranclp_trans)

subsection \<open>Consequences for reachable states\<close>

lemma reachable_new: "reachable newCollisionDetector" "reachable newSharingCollisionDetector"
  by (simp_all add: reachable_def)

lemma reachable_dummyOptionOk:
  assumes "reachable s"
  shows "dummyOptionOk s"
  using reachable_invariant[OF assms] by (simp add: invariant_def)

lemma claim_frame_scratch:
  assumes "claimCollisionObject s h = Inr (a, s')"
  shows "mDummyCollisionOption s' = mDummyCollisionOption s"
    and "mDummyCollisionResult s' = mDummyCollisionResult s"
  using assms
  by (auto simp: claimCollisionObject_def unsharable_claimCollisionObject_def
      sharable_claimCollisionObject_def createCollisionObject_def shared_ptr_ctor_def lock_def
      split: option.splits if_splits elim!: manager_claimCollisionObject.elims)

lemma copy_frame_scratch:
  "mDummyCollisionOption (shared_ptr_copy s a) = mDummyCollisionOption s"
  by (simp add: shared_ptr_copy_def split: option.splits)

lemma release_frame_scratch:
  "mDummyCollisionOption (shared_ptr_release s a) = mDummyCollisionOption s"
  by (simp add: shared_ptr_release_def unsharableDeleter_def sharableDeleter_def
      eraseMapEntry_def notifyCollisionObjectDestroying_def delete_object_def
      split: option.splits Deleter.splits)

lemma reachable_sharable:
  assumes "reachable s"
    and "mCollisionObjectManager s = Some (ManagerForSharableCollisionObjects m)"
  shows "\<And>b c. heap s b = Some c \<Longrightarrow>
           b < nextObject s \<and> 0 < use_count c \<and> deleter c = SharableCollisionObjectDeleter \<and>
           m (mShapeFrame (object c)) = Some b"
    and "\<And>k b. m k = Some b \<Longrightarrow> \<exists>c. heap s b = Some c \<and> mShapeFrame (object c) = k"
  using reachable_invariant[OF assms(1)] assms(2)
  by (auto simp: invariant_def heapOk_def managerOk_def)

lemma reachable_below:
  assumes "reachable s" and "heap s b = Some c"
  shows "b < nextObject s" and "0 < use_count c"
  using reachable_invariant[OF assms(1)] assms(2)
  by (auto simp: invariant_def heapOk_def)

lemma claim_result_live:
  assumes "reachable s" and "claimCollisionObject s h = Inr (a, s')"
  shows "\<exists>c. heap s' a = Some c \<and> mShapeFrame (object c) = h"
proof (cases "mCollisionObjectManager s = None \<or>
    mCollisionObjectManager s = Some ManagerForUnsharableCollisionObjects")
  case True
  from claim_unsharable[OF True, of h] assms(2) show ?thesis by auto
next
  case False
  then obtain m where mgr: "mCollisionObjectManager s = Some (ManagerForSharableCollisionObjects m)"
    by (cases "mCollisionObjectManager s") (auto intro: CollisionObjectManager.exhaust)
  show ?thesis
  proof (cases "m h")
    case None
    from claim_sharable_new[OF mgr None] assms(2) show ?thesis by auto
  next
    case (Some w)
    from reachable_sharable(2)[OF assms(1) mgr Some]
    obtain c where c: "heap s w = Some c" "mShapeFrame (object c) = h" by blast
    from reachable_below(2)[OF assms(1) c(1)] have "0 < use_count c" .
    from claim_sharable_live[OF mgr Some c(1) this] assms(2) c(2) show ?thesis by auto
  qed
qed

lemma reachable_fresh:
  assumes "reachable s"
  shows "heap s (nextObject s) = None"
  using reachable_below(1)[OF assms, of "nextObject s"]
  by (cases "heap s (nextObject s)") auto

text \<open>The example detectors are states that a detector reaches.\<close>

lemma reachable_freshDetector: "reachable freshDetector"
  by (simp add: freshDetector_def reachable_def)

lemma reachable_sharingDetector: "reachable sharingDetector"
  by (simp add: sharingDetector_def reachable_def)

lemma collide_freshDetector:
  "collide sampleCollide freshDetector [0, 1, 2] fullOption = Inr (True, usedDetector)"
  by (simp add: collide_def fullOption_def CollisionOption_ctor_def freshDetector_def
      newCollisionDetector_def getDummyCollisionOption_def getDummyCollisionResult_def
      collideOnDummyResult_def sampleCollide_def limitContacts_def usedDetector_def Let_def)

lemma reachable_usedDetector: "reachable usedDetector"
  using reachable_freshDetector collide_freshDetector
  by (auto intro: reachable_step step_collide)

lemma claim_freshDetector: "claimCollisionObject freshDetector 7 = Inr (0, exclusiveDetector)"
  by (simp add: claimCollisionObject_def unsharable_claimCollisionObject_def
      createCollisionObject_def shared_ptr_ctor_def freshDetector_def newCollisionDetector_def
      exclusiveDetector_def)

lemma claim_sharingDetector: "claimCollisionObject sharingDetector 7 = Inr (0, sharedDetector)"
  by (simp add: claimCollisionObject_def sharable_claimCollisionObject_def
      createCollisionObject_def shared_ptr_ctor_def sharingDetector_def
      newSharingCollisionDetector_def newCollisionDetector_def sharedDetector_def)

lemma reachable_exclusiveDetector: "reachable exclusiveDetector"
  using reachable_freshDetector claim_freshDetector
  by (auto intro: reachable_step step_claim)

lemma reachable_sharedDetector: "reachable sharedDetector"
  using reachable_sharingDetector claim_sharingDetector
  by (auto intro: reachable_step step_claim)

section \<open>The claims\<close>

text \<open>
  C2. For every group (or pair of groups), every option and every backend, in every
  state that a detector can reach, each convenience overload returns what the core
  overload returns when it is called on the detector's scratch result (the stored one,
  or an empty one if there is none yet), and keeps what the core overload wrote as the
  scratch result. The option handed over is the caller's when \<^verbatim>\<open>option.binaryCheck\<close> is
  set, and the scratch option is then left alone; otherwise it is the scratch option,
  whose fields are \<^verbatim>\<open>enableContact = false\<close>, \<^verbatim>\<open>binaryCheck = true\<close>,
  \<^verbatim>\<open>maxNumContacts = 1\<close> and the caller's filter, nothing else of the caller's option.
\<close>

theorem convenience_overloads_delegate:
  assumes "reachable s"
  shows "collide core s grp option =
           (let result = (case mDummyCollisionResult s of None \<Rightarrow> [] | Some r \<Rightarrow> r);
                passed = (if binaryCheck option then option
                          else \<lparr>enableContact = False, binaryCheck = True, maxNumContacts = 1,
                                collisionFilter = collisionFilter option\<rparr>)
            in Inr (fst (core grp passed result),
                    s\<lparr>mDummyCollisionOption :=
                         (if binaryCheck option then mDummyCollisionOption s else Some passed),
                       mDummyCollisionResult := Some (snd (core grp passed result))\<rparr>)) \<and>
         collide2 core2 s grp1 grp2 option =
           (let result = (case mDummyCollisionResult s of None \<Rightarrow> [] | Some r \<Rightarrow> r);
                passed = (if binaryCheck option then option
                          else \<lparr>enableContact = False, binaryCheck = True, maxNumContacts = 1,
                                collisionFilter = collisionFilter option\<rparr>)
            in Inr (fst (core2 grp1 grp2 passed result),
                    s\<lparr>mDummyCollisionOption :=
                         (if binaryCheck option then mDummyCollisionOption s else Some passed),
                       mDummyCollisionResult := Some (snd (core2 grp1 grp2 passed result))\<rparr>))"
proof -
  have onResult: "collideOnDummyResult q t =
      (fst (q (case mDummyCollisionResult t of None \<Rightarrow> [] | Some r \<Rightarrow> r)),
       t\<lparr>mDummyCollisionResult :=
           Some (snd (q (case mDummyCollisionResult t of None \<Rightarrow> [] | Some r \<Rightarrow> r)))\<rparr>)"
    for q and t :: "'a CollisionDetector"
    by (simp add: collideOnDummyResult_def getDummyCollisionResult_def
        split: option.splits prod.splits)
  show ?thesis
  proof (cases "binaryCheck option")
    case True
    then show ?thesis
      by (simp add: collide_def collide2_def onResult Let_def)
  next
    case False
    from assms have ok: "dummyOptionOk s" by (rule reachable_dummyOptionOk)
    have passed: "forcedBinaryOption option =
        \<lparr>enableContact = False, binaryCheck = True, maxNumContacts = 1,
         collisionFilter = collisionFilter option\<rparr>"
      by (simp add: forcedBinaryOption_def CollisionOption_ctor_def)
    from False show ?thesis
      by (simp add: collide_forced[OF ok False] collide2_forced[OF ok False] onResult passed Let_def)
  qed
qed

theorem convenience_overloads_delegate_witness:
  "reachable usedDetector \<and>
   mDummyCollisionResult usedDetector = Some [(0, 1)] \<and>
   collide sampleCollide usedDetector [0, 1, 2] binaryFilteredOption =
     Inr (True, usedDetector\<lparr>mDummyCollisionResult := Some [(0, 1), (1, 2)]\<rparr>) \<and>
   collide sampleCollide usedDetector [0, 1, 2] filteredOption =
     Inr (True, usedDetector
            \<lparr>mDummyCollisionOption := Some (CollisionOption_ctor False True 1 (Some keepLater)),
             mDummyCollisionResult := Some [(0, 1), (1, 2)]\<rparr>) \<and>
   collide2 sampleCollide2 usedDetector [0, 1] [2, 3] binaryFilteredOption =
     Inr (True, usedDetector\<lparr>mDummyCollisionResult := Some [(0, 1), (1, 2)]\<rparr>) \<and>
   collide2 sampleCollide2 usedDetector [0, 1] [2, 3] fullOption =
     Inr (True, usedDetector\<lparr>mDummyCollisionResult := Some [(0, 1), (0, 2)]\<rparr>)"
proof -
  note r = reachable_usedDetector
  have v: "mDummyCollisionResult usedDetector = Some [(0, 1)]"
    "mDummyCollisionOption usedDetector = Some (CollisionOption_ctor False True 1 None)"
    by (simp_all add: usedDetector_def)
  have b: "binaryCheck binaryFilteredOption" "\<not> binaryCheck filteredOption"
    "\<not> binaryCheck fullOption"
    by (simp_all add: binaryFilteredOption_def filteredOption_def fullOption_def
        CollisionOption_ctor_def)
  from convenience_overloads_delegate[OF r, of sampleCollide "[0, 1, 2]" binaryFilteredOption
      sampleCollide2 "[0, 1]" "[2, 3]"]
  have 1: "collide sampleCollide usedDetector [0, 1, 2] binaryFilteredOption =
     Inr (True, usedDetector\<lparr>mDummyCollisionResult := Some [(0, 1), (1, 2)]\<rparr>)"
    and 3: "collide2 sampleCollide2 usedDetector [0, 1] [2, 3] binaryFilteredOption =
     Inr (True, usedDetector\<lparr>mDummyCollisionResult := Some [(0, 1), (1, 2)]\<rparr>)"
    by (simp_all add: b v Let_def sampleCollide_def sampleCollide2_def limitContacts_def
        binaryFilteredOption_def CollisionOption_ctor_def keepLater_def usedDetector_def)
  from convenience_overloads_delegate[OF r, of sampleCollide "[0, 1, 2]" filteredOption
      sampleCollide2 "[0, 1]" "[2, 3]"]
  have 2: "collide sampleCollide usedDetector [0, 1, 2] filteredOption =
     Inr (True, usedDetector
            \<lparr>mDummyCollisionOption := Some (CollisionOption_ctor False True 1 (Some keepLater)),
             mDummyCollisionResult := Some [(0, 1), (1, 2)]\<rparr>)"
    by (simp add: b v Let_def sampleCollide_def sampleCollide2_def limitContacts_def
        filteredOption_def CollisionOption_ctor_def keepLater_def usedDetector_def)
  from convenience_overloads_delegate[OF r, of sampleCollide "[0, 1, 2]" fullOption
      sampleCollide2 "[0, 1]" "[2, 3]"]
  have 4: "collide2 sampleCollide2 usedDetector [0, 1] [2, 3] fullOption =
     Inr (True, usedDetector\<lparr>mDummyCollisionResult := Some [(0, 1), (0, 2)]\<rparr>)"
    by (simp add: b v Let_def sampleCollide_def sampleCollide2_def limitContacts_def
        fullOption_def CollisionOption_ctor_def usedDetector_def)
  from r v(1) 1 2 3 4 show ?thesis by simp
qed

text \<open>
  C9. In every state that a detector can reach, the scratch option that
  \<^verbatim>\<open>getDummyCollisionOption\<close> returns has \<^verbatim>\<open>enableContact = false\<close>, \<^verbatim>\<open>binaryCheck = true\<close>
  and \<^verbatim>\<open>maxNumContacts = 1\<close>; when it is created there, it is created as
  \<^verbatim>\<open>CollisionOption(false, true, 1u, nullptr)\<close>; and none of the three assertions of the
  convenience overloads fails, for any backend, group and option.
\<close>

theorem scratch_option_is_binary:
  assumes "reachable s"
  shows "enableContact (fst (getDummyCollisionOption s)) = False \<and>
         binaryCheck (fst (getDummyCollisionOption s)) = True \<and>
         maxNumContacts (fst (getDummyCollisionOption s)) = 1 \<and>
         (mDummyCollisionOption s = None \<longrightarrow>
            fst (getDummyCollisionOption s) = CollisionOption_ctor False True 1 None) \<and>
         collide core s grp option \<noteq> Inl AssertionFailed \<and>
         collide2 core2 s grp1 grp2 option \<noteq> Inl AssertionFailed"
proof -
  from assms have ok: "dummyOptionOk s" by (rule reachable_dummyOptionOk)
  then obtain d where d:
    "getDummyCollisionOption s = (d, s\<lparr>mDummyCollisionOption := Some d\<rparr>)"
    "enableContact d = False" "binaryCheck d = True" "maxNumContacts d = 1"
    by (rule getDummyCollisionOption_cases)
  have "collide core s grp option \<noteq> Inl AssertionFailed"
    using collide_forced[OF ok, of option core grp]
    by (cases "binaryCheck option") (simp_all add: collide_def)
  moreover have "collide2 core2 s grp1 grp2 option \<noteq> Inl AssertionFailed"
    using collide2_forced[OF ok, of option core2 grp1 grp2]
    by (cases "binaryCheck option") (simp_all add: collide2_def)
  moreover have "mDummyCollisionOption s = None \<longrightarrow>
            fst (getDummyCollisionOption s) = CollisionOption_ctor False True 1 None"
    by (simp add: getDummyCollisionOption_def Let_def)
  ultimately show ?thesis using d by simp
qed

theorem scratch_option_is_binary_witness:
  "reachable freshDetector \<and> mDummyCollisionOption freshDetector = None \<and>
   fst (getDummyCollisionOption freshDetector) = CollisionOption_ctor False True 1 None \<and>
   enableContact (fst (getDummyCollisionOption freshDetector)) = False \<and>
   binaryCheck (fst (getDummyCollisionOption freshDetector)) = True \<and>
   maxNumContacts (fst (getDummyCollisionOption freshDetector)) = 1 \<and>
   collide sampleCollide freshDetector [0, 1, 2] fullOption \<noteq> Inl AssertionFailed \<and>
   collide2 sampleCollide2 freshDetector [0, 1] [2] fullOption \<noteq> Inl AssertionFailed"
proof -
  have r: "reachable freshDetector"
    by (simp add: freshDetector_def reachable_def)
  have n: "mDummyCollisionOption freshDetector = None"
    by (simp add: freshDetector_def newCollisionDetector_def)
  from scratch_option_is_binary[OF r, of sampleCollide "[0, 1, 2]" fullOption
      sampleCollide2 "[0, 1]" "[2]"] r n
  show ?thesis by (simp add: CollisionOption_ctor_def)
qed

text \<open>
  C10. A convenience call that returns leaves the scratch option as it was when the
  caller's option has \<^verbatim>\<open>binaryCheck\<close> set; otherwise the scratch option afterwards is the
  scratch option of before (created if it was not there yet) with its filter replaced by
  the caller's filter, the other fields as they were. The filter stays until the next
  such call: claiming a collision object, copying and releasing an owning reference do
  not touch the scratch option.
\<close>

theorem convenience_collide_writes_scratch_filter:
  "(collide core s grp option = Inr (hit, s') \<longrightarrow>
      mDummyCollisionOption s' =
        (if binaryCheck option then mDummyCollisionOption s
         else Some ((fst (getDummyCollisionOption s))
                      \<lparr>collisionFilter := collisionFilter option\<rparr>))) \<and>
   (collide2 core2 s grp1 grp2 option = Inr (hit2, s2) \<longrightarrow>
      mDummyCollisionOption s2 =
        (if binaryCheck option then mDummyCollisionOption s
         else Some ((fst (getDummyCollisionOption s))
                      \<lparr>collisionFilter := collisionFilter option\<rparr>))) \<and>
   (claimCollisionObject s shapeFrame = Inr (a, s3) \<longrightarrow>
      mDummyCollisionOption s3 = mDummyCollisionOption s) \<and>
   mDummyCollisionOption (shared_ptr_copy s b) = mDummyCollisionOption s \<and>
   mDummyCollisionOption (shared_ptr_release s b) = mDummyCollisionOption s"
proof (intro conjI impI)
  assume "collide core s grp option = Inr (hit, s')"
  then show "mDummyCollisionOption s' =
        (if binaryCheck option then mDummyCollisionOption s
         else Some ((fst (getDummyCollisionOption s))
                      \<lparr>collisionFilter := collisionFilter option\<rparr>))"
    by (cases "getDummyCollisionOption s")
      (auto simp: collide_def Let_def collideOnDummyResult_result(1) split: if_splits
        dest!: collideOnDummyResult_result(1))
next
  assume "collide2 core2 s grp1 grp2 option = Inr (hit2, s2)"
  then show "mDummyCollisionOption s2 =
        (if binaryCheck option then mDummyCollisionOption s
         else Some ((fst (getDummyCollisionOption s))
                      \<lparr>collisionFilter := collisionFilter option\<rparr>))"
    by (cases "getDummyCollisionOption s")
      (auto simp: collide2_def Let_def split: if_splits
        dest!: collideOnDummyResult_result(1))
next
  assume "claimCollisionObject s shapeFrame = Inr (a, s3)"
  then show "mDummyCollisionOption s3 = mDummyCollisionOption s"
    by (rule claim_frame_scratch)
qed (simp_all add: copy_frame_scratch release_frame_scratch)

theorem convenience_collide_writes_scratch_filter_witness:
  "collide sampleCollide freshDetector [0, 1, 2] filteredOption =
     Inr (True, freshDetector
            \<lparr>mDummyCollisionOption := Some (CollisionOption_ctor False True 1 (Some keepLater)),
             mDummyCollisionResult := Some [(1, 2)]\<rparr>) \<and>
   collide2 sampleCollide2 freshDetector [0, 1] [2] filteredOption =
     Inr (True, freshDetector
            \<lparr>mDummyCollisionOption := Some (CollisionOption_ctor False True 1 (Some keepLater)),
             mDummyCollisionResult := Some [(1, 2)]\<rparr>) \<and>
   claimCollisionObject freshDetector 7 = Inr (0, exclusiveDetector) \<and>
   mDummyCollisionOption exclusiveDetector = mDummyCollisionOption freshDetector \<and>
   mDummyCollisionOption (shared_ptr_copy exclusiveDetector 0) = None \<and>
   mDummyCollisionOption (shared_ptr_release exclusiveDetector 0) = None"
proof -
  let ?after = "freshDetector
            \<lparr>mDummyCollisionOption := Some (CollisionOption_ctor False True 1 (Some keepLater)),
             mDummyCollisionResult := Some [(1, 2)]\<rparr>"
  have c1: "collide sampleCollide freshDetector [0, 1, 2] filteredOption = Inr (True, ?after)"
    by (simp add: collide_def filteredOption_def CollisionOption_ctor_def freshDetector_def
        newCollisionDetector_def getDummyCollisionOption_def getDummyCollisionResult_def
        collideOnDummyResult_def sampleCollide_def limitContacts_def keepLater_def Let_def)
  have c2: "collide2 sampleCollide2 freshDetector [0, 1] [2] filteredOption = Inr (True, ?after)"
    by (simp add: collide2_def filteredOption_def CollisionOption_ctor_def freshDetector_def
        newCollisionDetector_def getDummyCollisionOption_def getDummyCollisionResult_def
        collideOnDummyResult_def sampleCollide2_def limitContacts_def keepLater_def Let_def)
  have c3: "claimCollisionObject freshDetector 7 = Inr (0, exclusiveDetector)"
    by (simp add: claimCollisionObject_def unsharable_claimCollisionObject_def
        createCollisionObject_def shared_ptr_ctor_def freshDetector_def newCollisionDetector_def
        exclusiveDetector_def)
  have n: "mDummyCollisionOption exclusiveDetector = None"
    by (simp add: exclusiveDetector_def)
  from convenience_collide_writes_scratch_filter[of sampleCollide freshDetector "[0, 1, 2]"
      filteredOption True ?after sampleCollide2 "[0, 1]" "[2]" True ?after 7 0 exclusiveDetector]
    convenience_collide_writes_scratch_filter[of sampleCollide exclusiveDetector "[]"
      filteredOption True ?after sampleCollide2 "[]" "[]" True ?after 7 0 exclusiveDetector 0]
    c1 c2 c3 n
  show ?thesis by simp
qed

text \<open>
  C1, as the spec states it: with \<^verbatim>\<open>binaryCheck = false\<close> the two-argument call is the core
  call with the caller's option unchanged, on the scratch result. It is not: for a group
  of three objects and an option that asks for every contact, the backend is called with
  the forced-binary scratch option and leaves one contact in the scratch result, where
  the caller's option would have left three.
\<close>

theorem nonbinary_option_not_passed_on_counterexample:
  "\<not> binaryCheck fullOption \<and>
   collide sampleCollide freshDetector [0, 1, 2] fullOption =
     Inr (True, freshDetector
            \<lparr>mDummyCollisionOption := Some (CollisionOption_ctor False True 1 None),
             mDummyCollisionResult := Some [(0, 1)]\<rparr>) \<and>
   collideOnDummyResult (sampleCollide [0, 1, 2] fullOption) freshDetector =
     (True, freshDetector\<lparr>mDummyCollisionResult := Some [(0, 1), (0, 2), (1, 2)]\<rparr>) \<and>
   collide sampleCollide freshDetector [0, 1, 2] fullOption \<noteq>
     Inr (collideOnDummyResult (sampleCollide [0, 1, 2] fullOption) freshDetector)"
  by (simp add: collide_def fullOption_def CollisionOption_ctor_def freshDetector_def
        newCollisionDetector_def getDummyCollisionOption_def getDummyCollisionResult_def
        collideOnDummyResult_def sampleCollide_def limitContacts_def Let_def)

text \<open>
  C1, amended: in every reachable state, with \<^verbatim>\<open>binaryCheck = false\<close> the two-argument
  call is the core call, on the scratch result, with the forced-binary scratch option
  (\<^verbatim>\<open>enableContact = false\<close>, \<^verbatim>\<open>binaryCheck = true\<close>, \<^verbatim>\<open>maxNumContacts = 1\<close>) that carries
  the caller's filter; the caller's \<^verbatim>\<open>enableContact\<close> and \<^verbatim>\<open>maxNumContacts\<close> have no effect.
\<close>

theorem nonbinary_option_is_forced_binary:
  assumes "reachable s" and "\<not> binaryCheck option"
  shows "collide core s grp option =
           Inr (collideOnDummyResult (core grp (forcedBinaryOption option))
                  (s\<lparr>mDummyCollisionOption := Some (forcedBinaryOption option)\<rparr>)) \<and>
         forcedBinaryOption option =
           \<lparr>enableContact = False, binaryCheck = True, maxNumContacts = 1,
            collisionFilter = collisionFilter option\<rparr> \<and>
         collide core s grp (option\<lparr>enableContact := e, maxNumContacts := n\<rparr>) =
           collide core s grp option"
proof -
  from assms(1) have ok: "dummyOptionOk s" by (rule reachable_dummyOptionOk)
  let ?option' = "option\<lparr>enableContact := e, maxNumContacts := n\<rparr>"
  from assms(2) have nb: "\<not> binaryCheck ?option'" by simp
  have same: "forcedBinaryOption ?option' = forcedBinaryOption option"
    by (simp add: forcedBinaryOption_def)
  show ?thesis
    using collide_forced[OF ok assms(2), of core grp] collide_forced[OF ok nb, of core grp]
    by (simp add: same) (simp add: forcedBinaryOption_def CollisionOption_ctor_def)
qed

theorem nonbinary_option_is_forced_binary_witness:
  "reachable freshDetector \<and> \<not> binaryCheck fullOption \<and>
   collide sampleCollide freshDetector [0, 1, 2] fullOption =
     Inr (True, freshDetector
            \<lparr>mDummyCollisionOption := Some (CollisionOption_ctor False True 1 None),
             mDummyCollisionResult := Some [(0, 1)]\<rparr>) \<and>
   collide sampleCollide freshDetector [0, 1, 2]
       (fullOption\<lparr>enableContact := False, maxNumContacts := 5\<rparr>) =
     collide sampleCollide freshDetector [0, 1, 2] fullOption"
proof -
  have r: "reachable freshDetector"
    by (simp add: freshDetector_def reachable_def)
  have b: "\<not> binaryCheck fullOption"
    by (simp add: fullOption_def CollisionOption_ctor_def)
  have v: "collideOnDummyResult (sampleCollide [0, 1, 2] (forcedBinaryOption fullOption))
             (freshDetector\<lparr>mDummyCollisionOption := Some (forcedBinaryOption fullOption)\<rparr>) =
           (True, freshDetector
            \<lparr>mDummyCollisionOption := Some (CollisionOption_ctor False True 1 None),
             mDummyCollisionResult := Some [(0, 1)]\<rparr>)"
    by (simp add: forcedBinaryOption_def fullOption_def CollisionOption_ctor_def freshDetector_def
        newCollisionDetector_def getDummyCollisionResult_def
        collideOnDummyResult_def sampleCollide_def limitContacts_def Let_def)
  from nonbinary_option_is_forced_binary[OF r b, where core = sampleCollide and grp = "[0, 1, 2]"
      and e = False and n = 5]
  have "collide sampleCollide freshDetector [0, 1, 2] fullOption =
          Inr (collideOnDummyResult (sampleCollide [0, 1, 2] (forcedBinaryOption fullOption))
             (freshDetector\<lparr>mDummyCollisionOption := Some (forcedBinaryOption fullOption)\<rparr>))"
    and "collide sampleCollide freshDetector [0, 1, 2]
             (fullOption\<lparr>enableContact := False, maxNumContacts := 5\<rparr>) =
           collide sampleCollide freshDetector [0, 1, 2] fullOption"
    by blast+
  with r b v show ?thesis by simp
qed

text \<open>
  C3. Under the sharable manager: when \<^verbatim>\<open>claimCollisionObject(h)\<close> has returned an object
  and, any number of calls later, that object is still alive (an owning reference to it
  is left), a further \<^verbatim>\<open>claimCollisionObject(h)\<close> returns the same object. The detector
  changes in the reference count of that object only: nothing is constructed.
\<close>

theorem sharable_claim_returns_the_live_object:
  assumes "reachable s0"
    and "mCollisionObjectManager s0 = Some (ManagerForSharableCollisionObjects m0)"
    and "claimCollisionObject s0 h = Inr (a, s1)"
    and "step\<^sup>*\<^sup>* s1 s2"
    and "heap s2 a = Some c"
  shows "claimCollisionObject s2 h =
           Inr (a, s2\<lparr>heap := (heap s2)(a \<mapsto> c\<lparr>use_count := Suc (use_count c)\<rparr>)\<rparr>)"
proof -
  have r1: "reachable s1"
    using assms(1,3) by (auto intro: reachable_step step_claim)
  then have r2: "reachable s2"
    using assms(4) by (rule reachable_steps)
  from assms(3) have "evolves s0 s1" by (rule evolves_claim)
  with assms(2) obtain m1 where "mCollisionObjectManager s1 = Some (ManagerForSharableCollisionObjects m1)"
    unfolding evolves_def by blast
  moreover from assms(4) have ev: "evolves s1 s2" by (rule evolves_steps)
  ultimately obtain m2 where mgr2: "mCollisionObjectManager s2 = Some (ManagerForSharableCollisionObjects m2)"
    unfolding evolves_def by blast
  from claim_result_live[OF assms(1,3)] obtain c1
    where c1: "heap s1 a = Some c1" "mShapeFrame (object c1) = h" by blast
  from reachable_below(1)[OF r1 c1(1)] have "a < nextObject s1" .
  with ev assms(5) obtain d where "heap s1 a = Some d" "object d = object c"
    unfolding evolves_def by blast
  with c1 have frame: "mShapeFrame (object c) = h" by simp
  from reachable_sharable(1)[OF r2 mgr2 assms(5)] frame
  have "m2 h = Some a" and "0 < use_count c" by simp_all
  then show ?thesis
    using claim_sharable_live[OF mgr2 _ assms(5)] by simp
qed

theorem sharable_claim_returns_the_live_object_witness:
  "reachable sharingDetector \<and>
   mCollisionObjectManager sharingDetector = Some (ManagerForSharableCollisionObjects Map.empty) \<and>
   claimCollisionObject sharingDetector 7 = Inr (0, sharedDetector) \<and>
   step\<^sup>*\<^sup>* sharedDetector (shared_ptr_copy sharedDetector 0) \<and>
   heap (shared_ptr_copy sharedDetector 0) 0 =
     Some \<lparr>object = \<lparr>mShapeFrame = 7\<rparr>, use_count = 2,
           deleter = SharableCollisionObjectDeleter\<rparr> \<and>
   claimCollisionObject (shared_ptr_copy sharedDetector 0) 7 =
     Inr (0, sharedDetector
            \<lparr>heap := [0 \<mapsto> \<lparr>object = \<lparr>mShapeFrame = 7\<rparr>, use_count = 3,
                              deleter = SharableCollisionObjectDeleter\<rparr>]\<rparr>)"
proof -
  have m: "mCollisionObjectManager sharingDetector =
      Some (ManagerForSharableCollisionObjects Map.empty)"
    by (simp add: sharingDetector_def newSharingCollisionDetector_def newCollisionDetector_def)
  have "heap sharedDetector 0 \<noteq> None" by (simp add: sharedDetector_def)
  then have "step sharedDetector (shared_ptr_copy sharedDetector 0)" by (rule step_copy)
  then have st: "step\<^sup>*\<^sup>* sharedDetector (shared_ptr_copy sharedDetector 0)" by (rule r_into_rtranclp)
  have hp: "heap (shared_ptr_copy sharedDetector 0) 0 =
     Some \<lparr>object = \<lparr>mShapeFrame = 7\<rparr>, use_count = 2,
           deleter = SharableCollisionObjectDeleter\<rparr>"
    by (simp add: shared_ptr_copy_def sharedDetector_def)
  have eq: "(shared_ptr_copy sharedDetector 0)
      \<lparr>heap := (heap (shared_ptr_copy sharedDetector 0))(0 \<mapsto>
          \<lparr>object = \<lparr>mShapeFrame = 7\<rparr>, use_count = 2,
           deleter = SharableCollisionObjectDeleter\<rparr>\<lparr>use_count := Suc 2\<rparr>)\<rparr> =
     sharedDetector
            \<lparr>heap := [0 \<mapsto> \<lparr>object = \<lparr>mShapeFrame = 7\<rparr>, use_count = 3,
                              deleter = SharableCollisionObjectDeleter\<rparr>]\<rparr>"
    by (simp add: shared_ptr_copy_def sharedDetector_def)
  from sharable_claim_returns_the_live_object[OF reachable_sharingDetector m
      claim_sharingDetector st hp]
  have "claimCollisionObject (shared_ptr_copy sharedDetector 0) 7 =
     Inr (0, sharedDetector
            \<lparr>heap := [0 \<mapsto> \<lparr>object = \<lparr>mShapeFrame = 7\<rparr>, use_count = 3,
                              deleter = SharableCollisionObjectDeleter\<rparr>]\<rparr>)"
    using eq by simp
  with reachable_sharingDetector m claim_sharingDetector st hp show ?thesis by simp
qed

text \<open>
  C4. Under the unsharable manager (the default of the base class), every
  \<^verbatim>\<open>claimCollisionObject(h)\<close> returns, and returns an object that did not exist before the
  call, with one owner and the unsharable deleter; every claim made any number of calls
  later returns an object other than this one; and the manager stays the unsharable
  one, which has no map.
\<close>

theorem unsharable_claims_are_distinct:
  assumes "reachable s0"
    and "mCollisionObjectManager s0 = None \<or>
         mCollisionObjectManager s0 = Some ManagerForUnsharableCollisionObjects"
  shows "\<exists>s1. claimCollisionObject s0 h = Inr (nextObject s0, s1) \<and>
           heap s0 (nextObject s0) = None \<and>
           heap s1 (nextObject s0) =
             Some \<lparr>object = \<lparr>mShapeFrame = h\<rparr>, use_count = 1,
                   deleter = UnsharableCollisionObjectDeleter\<rparr> \<and>
           mCollisionObjectManager s1 = Some ManagerForUnsharableCollisionObjects \<and>
           (\<forall>s2 h'. step\<^sup>*\<^sup>* s1 s2 \<longrightarrow>
              (\<exists>s3. claimCollisionObject s2 h' = Inr (nextObject s2, s3) \<and>
                    nextObject s2 \<noteq> nextObject s0 \<and>
                    heap s2 (nextObject s2) = None \<and>
                    mCollisionObjectManager s3 = Some ManagerForUnsharableCollisionObjects))"
proof -
  define s1 where "s1 = s0\<lparr>mCollisionObjectManager := Some ManagerForUnsharableCollisionObjects,
            heap := (heap s0)(nextObject s0 \<mapsto>
               \<lparr>object = \<lparr>mShapeFrame = h\<rparr>, use_count = 1,
                deleter = UnsharableCollisionObjectDeleter\<rparr>),
            nextObject := Suc (nextObject s0)\<rparr>"
  have claim1: "claimCollisionObject s0 h = Inr (nextObject s0, s1)"
    unfolding s1_def using assms(2) by (rule claim_unsharable)
  then have r1: "reachable s1"
    using assms(1) by (auto intro: reachable_step step_claim)
  have later: "\<exists>s3. claimCollisionObject s2 h' = Inr (nextObject s2, s3) \<and>
                    nextObject s2 \<noteq> nextObject s0 \<and>
                    heap s2 (nextObject s2) = None \<and>
                    mCollisionObjectManager s3 = Some ManagerForUnsharableCollisionObjects"
    if steps: "step\<^sup>*\<^sup>* s1 s2" for s2 h'
  proof -
    from steps have ev: "evolves s1 s2" by (rule evolves_steps)
    then have mgr2: "mCollisionObjectManager s2 = Some ManagerForUnsharableCollisionObjects"
      unfolding evolves_def by (simp add: s1_def)
    from ev have "nextObject s0 < nextObject s2"
      unfolding evolves_def by (simp add: s1_def)
    moreover from r1 steps have "reachable s2" by (rule reachable_steps)
    then have "heap s2 (nextObject s2) = None" by (rule reachable_fresh)
    ultimately show ?thesis
      using claim_unsharable[of s2 h'] mgr2 by simp
  qed
  from claim1 later reachable_fresh[OF assms(1)] show ?thesis
    by (intro exI[of _ s1]) (simp add: s1_def)
qed

theorem unsharable_claims_are_distinct_witness:
  "reachable freshDetector \<and> mCollisionObjectManager freshDetector = None \<and>
   claimCollisionObject freshDetector 7 = Inr (0, exclusiveDetector) \<and>
   step\<^sup>*\<^sup>* exclusiveDetector exclusiveDetector \<and>
   (\<exists>s3. claimCollisionObject exclusiveDetector 7 = Inr (1, s3))"
proof -
  have m: "mCollisionObjectManager freshDetector = None"
    by (simp add: freshDetector_def newCollisionDetector_def)
  then have m': "mCollisionObjectManager freshDetector = None \<or>
      mCollisionObjectManager freshDetector = Some ManagerForUnsharableCollisionObjects" ..
  from unsharable_claims_are_distinct[OF reachable_freshDetector m', of 7]
  obtain s1 where first: "claimCollisionObject freshDetector 7 = Inr (nextObject freshDetector, s1)"
    and later: "\<forall>s2 h'. step\<^sup>*\<^sup>* s1 s2 \<longrightarrow>
              (\<exists>s3. claimCollisionObject s2 h' = Inr (nextObject s2, s3) \<and>
                    nextObject s2 \<noteq> nextObject freshDetector \<and>
                    heap s2 (nextObject s2) = None \<and>
                    mCollisionObjectManager s3 = Some ManagerForUnsharableCollisionObjects)"
    by blast
  from first claim_freshDetector have s1: "s1 = exclusiveDetector" by simp
  have st: "step\<^sup>*\<^sup>* exclusiveDetector exclusiveDetector" by simp
  with later s1 obtain s3
    where "claimCollisionObject exclusiveDetector 7 = Inr (nextObject exclusiveDetector, s3)"
    by blast
  then have "\<exists>s3. claimCollisionObject exclusiveDetector 7 = Inr (1, s3)"
    by (simp add: exclusiveDetector_def)
  with reachable_freshDetector m claim_freshDetector st show ?thesis by simp
qed

text \<open>
  C5. Under the sharable manager: once the last owning reference to the object of shape
  frame \<open>h\<close> is released, the object is gone and the map has no entry for \<open>h\<close>; the next
  \<^verbatim>\<open>claimCollisionObject(h)\<close> does what a first request does: it constructs an object that
  did not exist, other than the destroyed one, enters it in the map and returns it with
  one owner.
\<close>

theorem sharable_claim_after_last_release:
  assumes "reachable s"
    and "mCollisionObjectManager s = Some (ManagerForSharableCollisionObjects m)"
    and "heap s a = Some c" and "use_count c = 1" and "mShapeFrame (object c) = h"
  shows "heap (shared_ptr_release s a) a = None \<and>
         mCollisionObjectManager (shared_ptr_release s a) =
           Some (ManagerForSharableCollisionObjects (m(h := None))) \<and>
         nextObject (shared_ptr_release s a) \<noteq> a \<and>
         heap (shared_ptr_release s a) (nextObject (shared_ptr_release s a)) = None \<and>
         claimCollisionObject (shared_ptr_release s a) h =
           Inr (nextObject (shared_ptr_release s a),
                (shared_ptr_release s a)
                  \<lparr>mCollisionObjectManager :=
                     Some (ManagerForSharableCollisionObjects
                             (m(h \<mapsto> nextObject (shared_ptr_release s a)))),
                   heap := (heap (shared_ptr_release s a))
                     (nextObject (shared_ptr_release s a) \<mapsto>
                        \<lparr>object = \<lparr>mShapeFrame = h\<rparr>, use_count = 1,
                         deleter = SharableCollisionObjectDeleter\<rparr>),
                   nextObject := Suc (nextObject (shared_ptr_release s a))\<rparr>)"
proof -
  let ?s' = "shared_ptr_release s a"
  from reachable_sharable(1)[OF assms(1,2,3)]
  have below: "a < nextObject s" and del: "deleter c = SharableCollisionObjectDeleter"
    by simp_all
  from assms(4) have last: "\<not> 1 < use_count c" by simp
  note s' = release_last_sharable[OF assms(3) last del assms(2)]
  have mgr': "mCollisionObjectManager ?s' = Some (ManagerForSharableCollisionObjects (m(h := None)))"
    by (simp add: s' assms(5))
  have "reachable ?s'"
    using assms(1,3) by (auto intro: reachable_step step_release)
  then have fresh: "heap ?s' (nextObject ?s') = None" by (rule reachable_fresh)
  have "heap ?s' a = None" by (simp add: s')
  moreover have "nextObject ?s' \<noteq> a" using below by (simp add: s')
  moreover have "claimCollisionObject ?s' h = Inr (nextObject ?s',
      ?s'\<lparr>mCollisionObjectManager :=
              Some (ManagerForSharableCollisionObjects ((m(h := None))(h \<mapsto> nextObject ?s'))),
            heap := (heap ?s')(nextObject ?s' \<mapsto>
               \<lparr>object = \<lparr>mShapeFrame = h\<rparr>, use_count = 1,
                deleter = SharableCollisionObjectDeleter\<rparr>),
            nextObject := Suc (nextObject ?s')\<rparr>)"
    by (rule claim_sharable_new[OF mgr']) simp
  ultimately show ?thesis using mgr' fresh by simp
qed

theorem sharable_claim_after_last_release_witness:
  "reachable sharedDetector \<and>
   mCollisionObjectManager sharedDetector = Some (ManagerForSharableCollisionObjects [7 \<mapsto> 0]) \<and>
   heap sharedDetector 0 =
     Some \<lparr>object = \<lparr>mShapeFrame = 7\<rparr>, use_count = 1,
           deleter = SharableCollisionObjectDeleter\<rparr> \<and>
   heap (shared_ptr_release sharedDetector 0) 0 = None \<and>
   mCollisionObjectManager (shared_ptr_release sharedDetector 0) =
     Some (ManagerForSharableCollisionObjects Map.empty) \<and>
   nextObject (shared_ptr_release sharedDetector 0) = 1 \<and>
   (\<exists>s'. claimCollisionObject (shared_ptr_release sharedDetector 0) 7 = Inr (1, s') \<and>
         heap s' 1 = Some \<lparr>object = \<lparr>mShapeFrame = 7\<rparr>, use_count = 1,
                          deleter = SharableCollisionObjectDeleter\<rparr>)"
proof -
  have m: "mCollisionObjectManager sharedDetector =
      Some (ManagerForSharableCollisionObjects [7 \<mapsto> 0])"
    by (simp add: sharedDetector_def)
  have hp: "heap sharedDetector 0 =
     Some \<lparr>object = \<lparr>mShapeFrame = 7\<rparr>, use_count = 1,
           deleter = SharableCollisionObjectDeleter\<rparr>"
    by (simp add: sharedDetector_def)
  have n: "nextObject (shared_ptr_release sharedDetector 0) = 1"
    by (simp add: shared_ptr_release_def sharableDeleter_def eraseMapEntry_def
        notifyCollisionObjectDestroying_def delete_object_def sharedDetector_def)
  from sharable_claim_after_last_release[OF reachable_sharedDetector m hp, of 7]
    reachable_sharedDetector m hp n
  show ?thesis by simp
qed

text \<open>
  C6. The release of the last owning reference runs the deleter the reference was made
  with. The sharable deleter first notifies the detector, then erases the map entry
  under the key that is the object's shape frame, then deletes the object; the
  unsharable deleter notifies the detector and then deletes the object. In both the
  notification comes first.
\<close>

theorem deleter_notifies_erases_deletes:
  assumes "heap s a = Some c" and "use_count c = 1"
  shows "(deleter c = SharableCollisionObjectDeleter \<longrightarrow>
            shared_ptr_release s a = sharableDeleter s (a, object c) \<and>
            sharableDeleter s (a, object c) =
              delete_object
                (eraseMapEntry (notifyCollisionObjectDestroying s a) (mShapeFrame (object c))) a \<and>
            events (shared_ptr_release s a) =
              events s @ [NotifyCollisionObjectDestroying a,
                          EraseMapEntry (mShapeFrame (object c)), DeleteObject a] \<and>
            heap (shared_ptr_release s a) = (heap s)(a := None) \<and>
            (\<forall>m. mCollisionObjectManager s = Some (ManagerForSharableCollisionObjects m) \<longrightarrow>
               mCollisionObjectManager (shared_ptr_release s a) =
                 Some (ManagerForSharableCollisionObjects (m(mShapeFrame (object c) := None))))) \<and>
         (deleter c = UnsharableCollisionObjectDeleter \<longrightarrow>
            shared_ptr_release s a = unsharableDeleter s (a, object c) \<and>
            unsharableDeleter s (a, object c) =
              delete_object (notifyCollisionObjectDestroying s a) a \<and>
            events (shared_ptr_release s a) =
              events s @ [NotifyCollisionObjectDestroying a, DeleteObject a] \<and>
            heap (shared_ptr_release s a) = (heap s)(a := None) \<and>
            mCollisionObjectManager (shared_ptr_release s a) = mCollisionObjectManager s)"
  using assms
  by (simp add: shared_ptr_release_def sharableDeleter_def unsharableDeleter_def
      eraseMapEntry_def notifyCollisionObjectDestroying_def delete_object_def)

theorem deleter_notifies_erases_deletes_witness:
  "heap sharedDetector 0 =
     Some \<lparr>object = \<lparr>mShapeFrame = 7\<rparr>, use_count = 1,
           deleter = SharableCollisionObjectDeleter\<rparr> \<and>
   events (shared_ptr_release sharedDetector 0) =
     [NotifyCollisionObjectDestroying 0, EraseMapEntry 7, DeleteObject 0] \<and>
   mCollisionObjectManager (shared_ptr_release sharedDetector 0) =
     Some (ManagerForSharableCollisionObjects Map.empty) \<and>
   heap (shared_ptr_release sharedDetector 0) = Map.empty \<and>
   heap exclusiveDetector 0 =
     Some \<lparr>object = \<lparr>mShapeFrame = 7\<rparr>, use_count = 1,
           deleter = UnsharableCollisionObjectDeleter\<rparr> \<and>
   events (shared_ptr_release exclusiveDetector 0) =
     [NotifyCollisionObjectDestroying 0, DeleteObject 0] \<and>
   heap (shared_ptr_release exclusiveDetector 0) = Map.empty"
proof -
  have hs: "heap sharedDetector 0 =
     Some \<lparr>object = \<lparr>mShapeFrame = 7\<rparr>, use_count = 1,
           deleter = SharableCollisionObjectDeleter\<rparr>"
    by (simp add: sharedDetector_def)
  have he: "heap exclusiveDetector 0 =
     Some \<lparr>object = \<lparr>mShapeFrame = 7\<rparr>, use_count = 1,
           deleter = UnsharableCollisionObjectDeleter\<rparr>"
    by (simp add: exclusiveDetector_def)
  have vs: "events sharedDetector = []" "heap sharedDetector = [0 \<mapsto>
      \<lparr>object = \<lparr>mShapeFrame = 7\<rparr>, use_count = 1, deleter = SharableCollisionObjectDeleter\<rparr>]"
    "mCollisionObjectManager sharedDetector = Some (ManagerForSharableCollisionObjects [7 \<mapsto> 0])"
    by (simp_all add: sharedDetector_def)
  have ve: "events exclusiveDetector = []" "heap exclusiveDetector = [0 \<mapsto>
      \<lparr>object = \<lparr>mShapeFrame = 7\<rparr>, use_count = 1, deleter = UnsharableCollisionObjectDeleter\<rparr>]"
    by (simp_all add: exclusiveDetector_def)
  have one: "use_count \<lparr>object = \<lparr>mShapeFrame = 7\<rparr>, use_count = 1,
           deleter = SharableCollisionObjectDeleter\<rparr> = 1"
    "use_count \<lparr>object = \<lparr>mShapeFrame = 7\<rparr>, use_count = 1,
           deleter = UnsharableCollisionObjectDeleter\<rparr> = 1"
    by simp_all
  from deleter_notifies_erases_deletes[OF hs one(1), simplified]
    deleter_notifies_erases_deletes[OF he one(2), simplified] vs(3)
  have "events (shared_ptr_release sharedDetector 0) =
      events sharedDetector @ [NotifyCollisionObjectDestroying 0, EraseMapEntry 7, DeleteObject 0]"
    and "heap (shared_ptr_release sharedDetector 0) = (heap sharedDetector)(0 := None)"
    and "mCollisionObjectManager (shared_ptr_release sharedDetector 0) =
      Some (ManagerForSharableCollisionObjects ([7 \<mapsto> 0](7 := None)))"
    and "events (shared_ptr_release exclusiveDetector 0) =
      events exclusiveDetector @ [NotifyCollisionObjectDestroying 0, DeleteObject 0]"
    and "heap (shared_ptr_release exclusiveDetector 0) = (heap exclusiveDetector)(0 := None)"
    by blast+
  with hs he show ?thesis by (simp add: vs ve)
qed

text \<open>
  C7. \<^verbatim>\<open>CollisionDetector::claimCollisionObject\<close> is the call of the manager's
  \<^verbatim>\<open>claimCollisionObject\<close>; a detector without a manager first installs the unsharable
  manager, and the call returns with that manager in place.
\<close>

theorem claimCollisionObject_delegates_to_manager:
  "(mCollisionObjectManager s = None \<longrightarrow>
      claimCollisionObject s h =
        manager_claimCollisionObject ManagerForUnsharableCollisionObjects
          (s\<lparr>mCollisionObjectManager := Some ManagerForUnsharableCollisionObjects\<rparr>) h \<and>
      (\<exists>a s'. claimCollisionObject s h = Inr (a, s') \<and>
         mCollisionObjectManager s' = Some ManagerForUnsharableCollisionObjects)) \<and>
   (\<forall>manager. mCollisionObjectManager s = Some manager \<longrightarrow>
      claimCollisionObject s h = manager_claimCollisionObject manager s h)"
  by (auto simp: claimCollisionObject_def unsharable_claimCollisionObject_def
      createCollisionObject_def shared_ptr_ctor_def)

theorem claimCollisionObject_delegates_to_manager_witness:
  "mCollisionObjectManager freshDetector = None \<and>
   claimCollisionObject freshDetector 7 =
     manager_claimCollisionObject ManagerForUnsharableCollisionObjects
       (freshDetector\<lparr>mCollisionObjectManager := Some ManagerForUnsharableCollisionObjects\<rparr>) 7 \<and>
   claimCollisionObject freshDetector 7 = Inr (0, exclusiveDetector) \<and>
   mCollisionObjectManager exclusiveDetector = Some ManagerForUnsharableCollisionObjects \<and>
   mCollisionObjectManager sharedDetector = Some (ManagerForSharableCollisionObjects [7 \<mapsto> 0]) \<and>
   claimCollisionObject sharedDetector 7 =
     manager_claimCollisionObject (ManagerForSharableCollisionObjects [7 \<mapsto> 0]) sharedDetector 7"
proof -
  have m: "mCollisionObjectManager freshDetector = None"
    by (simp add: freshDetector_def newCollisionDetector_def)
  have ms: "mCollisionObjectManager sharedDetector =
      Some (ManagerForSharableCollisionObjects [7 \<mapsto> 0])"
    by (simp add: sharedDetector_def)
  have me: "mCollisionObjectManager exclusiveDetector = Some ManagerForUnsharableCollisionObjects"
    by (simp add: exclusiveDetector_def)
  from claimCollisionObject_delegates_to_manager[of freshDetector 7]
    claimCollisionObject_delegates_to_manager[of sharedDetector 7]
    m ms me claim_freshDetector
  show ?thesis by simp
qed

text \<open>
  C8. Under the sharable manager, an entry of the map whose weak pointer cannot be locked
  makes \<^verbatim>\<open>claimCollisionObject\<close> fail its assertion; in a state that a detector can reach
  that does not happen: every entry names a live object of that shape frame, the lock
  succeeds and the call returns that object.
\<close>

theorem sharable_lookup_finds_live_object:
  assumes "mCollisionObjectManager s = Some (ManagerForSharableCollisionObjects m)"
    and "m h = Some a"
  shows "(lock s a = None \<longrightarrow> claimCollisionObject s h = Inl AssertionFailed) \<and>
         (reachable s \<longrightarrow>
            (\<exists>c. heap s a = Some c \<and> 0 < use_count c \<and> mShapeFrame (object c) = h) \<and>
            lock s a \<noteq> None \<and>
            (\<exists>s'. claimCollisionObject s h = Inr (a, s')))"
proof (intro conjI impI)
  assume "lock s a = None"
  with assms show "claimCollisionObject s h = Inl AssertionFailed"
    by (rule claim_sharable_dead)
next
  assume r: "reachable s"
  from reachable_sharable(2)[OF r assms] obtain c
    where c: "heap s a = Some c" "mShapeFrame (object c) = h" by blast
  from reachable_below(2)[OF r c(1)] have pos: "0 < use_count c" .
  with c show "\<exists>c. heap s a = Some c \<and> 0 < use_count c \<and> mShapeFrame (object c) = h"
    by blast
  from c pos show "lock s a \<noteq> None" by (simp add: lock_def)
  from claim_sharable_live[OF assms c(1) pos]
  show "\<exists>s'. claimCollisionObject s h = Inr (a, s')" by blast
qed

theorem sharable_lookup_finds_live_object_witness:
  "mCollisionObjectManager corruptDetector = Some (ManagerForSharableCollisionObjects [7 \<mapsto> 0]) \<and>
   lock corruptDetector 0 = None \<and>
   claimCollisionObject corruptDetector 7 = Inl AssertionFailed \<and>
   mCollisionObjectManager sharedDetector = Some (ManagerForSharableCollisionObjects [7 \<mapsto> 0]) \<and>
   reachable sharedDetector \<and>
   lock sharedDetector 0 \<noteq> None \<and>
   (\<exists>s'. claimCollisionObject sharedDetector 7 = Inr (0, s'))"
proof -
  have mc: "mCollisionObjectManager corruptDetector =
      Some (ManagerForSharableCollisionObjects [7 \<mapsto> 0])"
    by (simp add: corruptDetector_def sharedDetector_def)
  have lc: "lock corruptDetector 0 = None"
    by (simp add: lock_def corruptDetector_def)
  have ms: "mCollisionObjectManager sharedDetector =
      Some (ManagerForSharableCollisionObjects [7 \<mapsto> 0])"
    by (simp add: sharedDetector_def)
  have e: "[7 \<mapsto> 0::nat] (7::nat) = Some 0" by simp
  from sharable_lookup_finds_live_object[OF mc e] sharable_lookup_finds_live_object[OF ms e]
    mc lc ms reachable_sharedDetector
  show ?thesis by simp
qed

end
